theory Spec2Isabelle
  imports Complex_Main "HOL-Library.AList"
begin

section \<open>Configuration constants (smart\_bot.py, lines 28-32)\<close>

definition REPLY_COOLDOWN :: real where
  "REPLY_COOLDOWN = 300"

definition SCAN_INTERVAL :: real where
  "SCAN_INTERVAL = 20"

definition MAX_REPLIES_PER_HOUR :: int where
  "MAX_REPLIES_PER_HOUR = 10"

section \<open>Tracking state (lines 45-47)\<close>

text \<open>
  \<^verbatim>\<open>message_history\<close> is a Python dict from the hex digest of a screenshot to the
  clock reading of the last reply. It is kept as an association list with distinct keys in
  insertion order, which is what \<^verbatim>\<open>items()\<close> enumerates. \<^verbatim>\<open>reply_counter\<close> is the dict
  with the two keys \<^verbatim>\<open>count\<close> and \<^verbatim>\<open>reset_time\<close>. Readings of \<^verbatim>\<open>time.time()\<close> are
  taken as real numbers of seconds.
\<close>

type_synonym history = "(string \<times> real) list"

record bot_state =
  message_history :: history
  count :: int
  reset_time :: real

text \<open>\<^verbatim>\<open>d.get(k, default)\<close>, \<^verbatim>\<open>d[k] = v\<close>, \<^verbatim>\<open>d.clear()\<close> and \<^verbatim>\<open>del d[k]\<close>.\<close>

definition dict_get :: "('k \<times> 'v) list \<Rightarrow> 'k \<Rightarrow> 'v \<Rightarrow> 'v" where
  "dict_get d k dflt = (case map_of d k of Some v \<Rightarrow> v | None \<Rightarrow> dflt)"

definition dict_set :: "('k \<times> 'v) list \<Rightarrow> 'k \<Rightarrow> 'v \<Rightarrow> ('k \<times> 'v) list" where
  "dict_set d k v = AList.update k v d"

definition dict_clear :: "('k \<times> 'v) list \<Rightarrow> ('k \<times> 'v) list" where
  "dict_clear d = []"

definition dict_del :: "('k \<times> 'v) list \<Rightarrow> 'k \<Rightarrow> ('k \<times> 'v) list" where
  "dict_del d k = AList.delete k d"

section \<open>Rate limiter (check\_rate\_limit, lines 222-235)\<close>

text \<open>
  The function reads the clock once (\<open>current_time\<close>), resets the counter when more than
  3600 seconds have passed since \<^verbatim>\<open>reset_time\<close>, and then compares the count with the cap.
  It returns the verdict together with the counter as it has left it.
\<close>

definition check_rate_limit :: "real \<Rightarrow> bot_state \<Rightarrow> bool \<times> bot_state" where
  "check_rate_limit current_time s =
     (let s1 = (if current_time - reset_time s > 3600
                then s\<lparr>count := 0, reset_time := current_time\<rparr>
                else s)
      in if count s1 \<ge> MAX_REPLIES_PER_HOUR then (False, s1) else (True, s1))"

section \<open>Cooldown gate (main, lines 271-276)\<close>

definition cooldown_active :: "real \<Rightarrow> history \<Rightarrow> string \<Rightarrow> bool" where
  "cooldown_active now mh img_hash =
     (let last_reply_time = dict_get mh img_hash 0
      in now - last_reply_time < REPLY_COOLDOWN)"

section \<open>Bookkeeping after a successful send (main, lines 291-300)\<close>

text \<open>Lines 292-293: record the reply and count it.\<close>

definition record_reply :: "string \<Rightarrow> real \<Rightarrow> bot_state \<Rightarrow> bot_state" where
  "record_reply img_hash now s =
     s\<lparr>message_history := dict_set (message_history s) img_hash now,
       count := count s + 1\<rparr>"

text \<open>Line 297: \<^verbatim>\<open>message_history.clear()\<close>.\<close>

definition clear_history :: "bot_state \<Rightarrow> bot_state" where
  "clear_history s = s\<lparr>message_history := dict_clear (message_history s)\<rparr>"

text \<open>
  Lines 298-300: the loop runs over a snapshot \<^verbatim>\<open>list(message_history.items())\<close> and
  deletes from the live dict every key whose entry is more than 86400 seconds old.
\<close>

fun prune_loop :: "real \<Rightarrow> (string \<times> real) list \<Rightarrow> history \<Rightarrow> history" where
  "prune_loop current_time [] mh = mh"
| "prune_loop current_time ((h, t) # items) mh =
     (if current_time - t > 86400
      then prune_loop current_time items (dict_del mh h)
      else prune_loop current_time items mh)"

definition prune_history :: "real \<Rightarrow> bot_state \<Rightarrow> bot_state" where
  "prune_history current_time s =
     s\<lparr>message_history := prune_loop current_time (message_history s) (message_history s)\<rparr>"

text \<open>
  The whole block: the first clock reading is stored in the ledger, the second one is the
  \<^verbatim>\<open>current_time\<close> of the cleanup.
\<close>

definition bookkeeping :: "string \<Rightarrow> real \<Rightarrow> real \<Rightarrow> bot_state \<Rightarrow> bot_state" where
  "bookkeeping img_hash now current_time s =
     prune_history current_time (clear_history (record_reply img_hash now s))"

section \<open>Exceptions, outcomes of calls and the console\<close>

text \<open>
  The handlers of the source tell three kinds of exception apart: \<^verbatim>\<open>KeyboardInterrupt\<close>,
  the classes under \<^verbatim>\<open>Exception\<close> (of which \<^verbatim>\<open>json.JSONDecodeError\<close> has a handler of its
  own), and the remaining classes under \<^verbatim>\<open>BaseException\<close> such as \<^verbatim>\<open>SystemExit\<close>, which no
  handler of the source catches. A call either returns a value or raises.
\<close>

datatype exn =
    KeyboardInterrupt
  | JSONDecodeError string
  | Exception string
  | BaseException string

datatype 'a outcome = Returns 'a | Raises exn

fun is_Exception :: "exn \<Rightarrow> bool" where
  "is_Exception KeyboardInterrupt = False"
| "is_Exception (JSONDecodeError m) = True"
| "is_Exception (Exception m) = True"
| "is_Exception (BaseException m) = False"

fun exn_message :: "exn \<Rightarrow> string" where
  "exn_message KeyboardInterrupt = []"
| "exn_message (JSONDecodeError m) = m"
| "exn_message (Exception m) = m"
| "exn_message (BaseException m) = m"

text \<open>The values \<^verbatim>\<open>json.loads\<close> produces, and Python's truth value of each.\<close>

datatype json =
    JNull
  | JBool bool
  | JNum real
  | JStr string
  | JArr "json list"
  | JObj "(string \<times> json) list"

fun truthy :: "json \<Rightarrow> bool" where
  "truthy JNull = False"
| "truthy (JBool b) = b"
| "truthy (JNum r) = (r \<noteq> 0)"
| "truthy (JStr s) = (s \<noteq> [])"
| "truthy (JArr xs) = (xs \<noteq> [])"
| "truthy (JObj kv) = (kv \<noteq> [])"

text \<open>\<^verbatim>\<open>d.get(k)\<close> without a default gives \<^verbatim>\<open>None\<close> for a missing key, which is false.\<close>

definition truthy_get :: "(string \<times> json) list \<Rightarrow> string \<Rightarrow> bool" where
  "truthy_get d k = (case map_of d k of None \<Rightarrow> False | Some v \<Rightarrow> truthy v)"

text \<open>
  What one pass of the loop leaves on the console and does to the outside world, in order.
  Each constructor stands for one \<^verbatim>\<open>print\<close> of the source or one external action.
\<close>

datatype event =
    Checking                   \<comment> \<open>line 255\<close>
  | WindowNotFound             \<comment> \<open>lines 55 and 75\<close>
  | FocusError string          \<comment> \<open>line 65\<close>
  | ScreenshotError string     \<comment> \<open>line 94\<close>
  | CooldownActive             \<comment> \<open>line 274\<close>
  | RateLimitReached           \<comment> \<open>line 232\<close>
  | OracleInvoked              \<comment> \<open>line 137, the call of \<^verbatim>\<open>generate_content\<close>\<close>
  | AIDetected json            \<comment> \<open>line 152\<close>
  | AIShouldReply json         \<comment> \<open>line 153\<close>
  | JsonParsingError string    \<comment> \<open>line 158\<close>
  | RawResponse string         \<comment> \<open>line 159\<close>
  | GeminiError string         \<comment> \<open>line 162\<close>
  | PreparingReply json        \<comment> \<open>line 287\<close>
  | ClickError string          \<comment> \<open>line 194\<close>
  | FocusInputFailed           \<comment> \<open>line 203\<close>
  | TypingReply json           \<comment> \<open>lines 207-208, the call of \<^verbatim>\<open>pyautogui.write\<close>\<close>
  | Sent json                  \<comment> \<open>line 215\<close>
  | ReplyFailed string         \<comment> \<open>line 218\<close>
  | NoReplyNeeded              \<comment> \<open>line 302\<close>
  | Slept real                 \<comment> \<open>a completed \<^verbatim>\<open>time.sleep(SCAN_INTERVAL)\<close>\<close>
  | BotStopped                 \<comment> \<open>line 307\<close>
  | LoopError string           \<comment> \<open>line 310\<close>

text \<open>
  \<^verbatim>\<open>try: body except Exception as e: handler\<close>, for a body that has run to an outcome and
  a handler that prints and returns a value.
\<close>

definition except_Exception ::
  "'a outcome \<times> event list \<Rightarrow> (string \<Rightarrow> 'a \<times> event list) \<Rightarrow> 'a outcome \<times> event list" where
  "except_Exception body handler =
     (case body of
        (Returns v, evs) \<Rightarrow> (Returns v, evs)
      | (Raises x, evs) \<Rightarrow>
          if is_Exception x
          then (case handler (exn_message x) of (v, evs') \<Rightarrow> (Returns v, evs @ evs'))
          else (Raises x, evs))"

section \<open>The outside world during one pass of the loop\<close>

text \<open>
  Everything the loop body obtains from outside the source in one pass: the outcome of each
  library call and each reading of the clock.
\<close>

record env =
  focus_windows :: "bool outcome"
    \<comment> \<open>line 53: \<^verbatim>\<open>getWindowsWithTitle\<close>; \<open>Returns True\<close> when the list is not empty\<close>
  focus_activate :: "unit outcome"
    \<comment> \<open>lines 58-62: restore, activate, sleep\<close>
  capture_windows :: "bool outcome"
    \<comment> \<open>line 73\<close>
  capture_shot :: "string outcome"
    \<comment> \<open>lines 78-90: the screenshot, given by its raw bytes \<^verbatim>\<open>img.tobytes()\<close>\<close>
  t_gate :: real
    \<comment> \<open>line 273: \<^verbatim>\<open>time.time()\<close>\<close>
  t_rate :: real
    \<comment> \<open>line 224: \<^verbatim>\<open>time.time()\<close>\<close>
  generate_content :: "string outcome"
    \<comment> \<open>lines 137-142: \<^verbatim>\<open>generate_content\<close> and \<^verbatim>\<open>response.text\<close>\<close>
  click_windows :: "bool outcome"
    \<comment> \<open>line 169\<close>
  click_input :: "unit outcome"
    \<comment> \<open>lines 173-190: the two clicks\<close>
  typing :: "unit outcome"
    \<comment> \<open>lines 208-213: write, sleep, press, sleep\<close>
  t_record :: real
    \<comment> \<open>line 292: \<^verbatim>\<open>time.time()\<close>\<close>
  t_cleanup :: real
    \<comment> \<open>line 296: \<^verbatim>\<open>time.time()\<close>\<close>
  sleep_body :: "unit outcome"
    \<comment> \<open>the \<^verbatim>\<open>time.sleep(SCAN_INTERVAL)\<close> inside the \<^verbatim>\<open>try\<close> (lines 259, 265, 275, 280, 304)\<close>
  sleep_handler :: "unit outcome"
    \<comment> \<open>line 311: the \<^verbatim>\<open>time.sleep(SCAN_INTERVAL)\<close> of the \<^verbatim>\<open>except Exception\<close> clause\<close>

section \<open>Window focus and capture (lines 50-100)\<close>

definition focus_whatsapp :: "env \<Rightarrow> bool outcome \<times> event list" where
  "focus_whatsapp e =
     except_Exception
       (case focus_windows e of
          Raises x \<Rightarrow> (Raises x, [])
        | Returns wins \<Rightarrow>
            if \<not> wins then (Returns False, [WindowNotFound])
            else (case focus_activate e of
                    Raises x \<Rightarrow> (Raises x, [])
                  | Returns u \<Rightarrow> (Returns True, [])))
       (\<lambda>m. (False, [FocusError m]))"

definition get_chat_image :: "env \<Rightarrow> string option outcome \<times> event list" where
  "get_chat_image e =
     except_Exception
       (case capture_windows e of
          Raises x \<Rightarrow> (Raises x, [])
        | Returns wins \<Rightarrow>
            if \<not> wins then (Returns None, [WindowNotFound])
            else (case capture_shot e of
                    Raises x \<Rightarrow> (Raises x, [])
                  | Returns img \<Rightarrow> (Returns (Some img), [])))
       (\<lambda>m. (None, [ScreenshotError m]))"

text \<open>Line 100. The digest \<^verbatim>\<open>hashlib.md5(...).hexdigest()\<close> is a parameter.\<close>

definition generate_image_hash :: "(string \<Rightarrow> string) \<Rightarrow> string \<Rightarrow> string" where
  "generate_image_hash md5_hexdigest img = md5_hexdigest img"

section \<open>String operations of the Python library used on the response\<close>

text \<open>
  \<^verbatim>\<open>str.strip()\<close> removes leading and trailing whitespace; for the code points below 256
  these are the characters listed. \<^verbatim>\<open>sub in s\<close> and \<^verbatim>\<open>s.split(sep)\<close> scan from the left;
  the source calls \<^verbatim>\<open>split\<close> with constant, non-empty separators only.
\<close>

definition py_isspace :: "char \<Rightarrow> bool" where
  "py_isspace c = (c \<in> set [CHR 0x09, CHR 0x0A, CHR 0x0B, CHR 0x0C, CHR 0x0D, CHR 0x1C,
                            CHR 0x1D, CHR 0x1E, CHR 0x1F, CHR 0x20, CHR 0x85, CHR 0xA0])"

definition strip :: "string \<Rightarrow> string" where
  "strip s = rev (dropWhile py_isspace (rev (dropWhile py_isspace s)))"

fun contains :: "string \<Rightarrow> string \<Rightarrow> bool" where
  "contains sub [] = (sub = [])"
| "contains sub (c # cs) = (take (length sub) (c # cs) = sub \<or> contains sub cs)"

fun split_from :: "string \<Rightarrow> string \<Rightarrow> string \<Rightarrow> string list" where
  "split_from sep cur [] = [cur]"
| "split_from sep cur (c # cs) =
     (if sep \<noteq> [] \<and> take (length sep) (c # cs) = sep
      then cur # split_from sep [] (drop (length sep) (c # cs))
      else split_from sep (cur @ [c]) cs)"

definition str_split :: "string \<Rightarrow> string \<Rightarrow> string list" where
  "str_split sep s = split_from sep [] s"

text \<open>\<^verbatim>\<open>xs[i]\<close> for a non-negative index: out of range it raises \<^verbatim>\<open>IndexError\<close>.\<close>

definition index :: "'a list \<Rightarrow> nat \<Rightarrow> 'a outcome" where
  "index xs i = (if i < length xs then Returns (xs ! i) else Raises (Exception ''IndexError''))"

definition fence :: string where
  "fence = [CHR 0x60, CHR 0x60, CHR 0x60]"

definition fence_json :: string where
  "fence_json = fence @ ''json''"

section \<open>The reply oracle (analyze\_message\_and\_generate\_reply, lines 103-163)\<close>

text \<open>Lines 145-148: the text between the code fences, when there are any.\<close>

definition extract_json :: "string \<Rightarrow> string outcome" where
  "extract_json result =
     (if contains fence_json result then
        (case index (str_split fence_json result) 1 of
           Raises x \<Rightarrow> Raises x
         | Returns a \<Rightarrow>
             (case index (str_split fence a) 0 of
                Raises x \<Rightarrow> Raises x
              | Returns b \<Rightarrow> Returns (strip b)))
      else if contains fence result then
        (case index (str_split fence result) 1 of
           Raises x \<Rightarrow> Raises x
         | Returns a \<Rightarrow>
             (case index (str_split fence a) 0 of
                Raises x \<Rightarrow> Raises x
              | Returns b \<Rightarrow> Returns (strip b)))
      else Returns result)"

text \<open>Lines 160 and 163: the decision returned by both handlers.\<close>

definition no_reply :: "(string \<times> json) list" where
  "no_reply = [(''should_reply'', JBool False), (''message_detected'', JStr []), (''reply'', JStr [])]"

text \<open>
  The two \<^verbatim>\<open>except\<close> clauses (lines 157-163), for an exception \<open>x\<close> raised in the
  \<^verbatim>\<open>try\<close> block; \<open>bound\<close> is the value of the local variable \<^verbatim>\<open>result\<close> at that moment,
  if it has been assigned. The first clause prints \<^verbatim>\<open>result\<close>; where the variable is
  not bound yet this raises inside the handler, and that exception leaves the function.
\<close>

definition analyze_handlers ::
  "string option \<Rightarrow> exn \<Rightarrow> event list \<Rightarrow> (string \<times> json) list outcome \<times> event list" where
  "analyze_handlers bound x evs =
     (case x of
        JSONDecodeError m \<Rightarrow>
          (case bound of
             None \<Rightarrow> (Raises (Exception ''UnboundLocalError''), evs @ [JsonParsingError m])
           | Some r \<Rightarrow> (Returns no_reply, evs @ [JsonParsingError m, RawResponse r]))
      | Exception m \<Rightarrow> (Returns no_reply, evs @ [GeminiError m])
      | KeyboardInterrupt \<Rightarrow> (Raises x, evs)
      | BaseException m \<Rightarrow> (Raises x, evs))"

text \<open>
  The function itself. \<open>loads\<close> is \<^verbatim>\<open>json.loads\<close>. A parsed value that is not an object
  has no method \<^verbatim>\<open>get\<close>, so line 152 raises \<^verbatim>\<open>AttributeError\<close>; an object is returned as
  its list of members.
\<close>

definition analyze_message_and_generate_reply ::
  "(string \<Rightarrow> json outcome) \<Rightarrow> env \<Rightarrow> (string \<times> json) list outcome \<times> event list" where
  "analyze_message_and_generate_reply loads e =
     (case generate_content e of
        Raises x \<Rightarrow> analyze_handlers None x [OracleInvoked]
      | Returns text \<Rightarrow>
          (let result = strip text in
           case extract_json result of
             Raises x \<Rightarrow> analyze_handlers (Some result) x [OracleInvoked]
           | Returns result' \<Rightarrow>
               (case loads result' of
                  Raises x \<Rightarrow> analyze_handlers (Some result') x [OracleInvoked]
                | Returns data \<Rightarrow>
                    (case data of
                       JObj kv \<Rightarrow>
                         (Returns kv,
                          [OracleInvoked,
                           AIDetected (dict_get kv ''message_detected'' (JStr ''N/A'')),
                           AIShouldReply (dict_get kv ''should_reply'' (JBool False))])
                     | _ \<Rightarrow>
                         analyze_handlers (Some result') (Exception ''AttributeError'')
                           [OracleInvoked]))))"

section \<open>The reply injector (lines 166-219)\<close>

definition click_on_chat_area_and_input :: "env \<Rightarrow> bool outcome \<times> event list" where
  "click_on_chat_area_and_input e =
     except_Exception
       (case click_windows e of
          Raises x \<Rightarrow> (Raises x, [])
        | Returns wins \<Rightarrow>
            if \<not> wins then (Returns False, [])
            else (case click_input e of
                    Raises x \<Rightarrow> (Raises x, [])
                  | Returns u \<Rightarrow> (Returns True, [])))
       (\<lambda>m. (False, [ClickError m]))"

definition send_reply :: "env \<Rightarrow> json \<Rightarrow> bool outcome \<times> event list" where
  "send_reply e message =
     except_Exception
       (case click_on_chat_area_and_input e of
          (Raises x, evs) \<Rightarrow> (Raises x, evs)
        | (Returns ok, evs) \<Rightarrow>
            if \<not> ok then (Returns False, evs @ [FocusInputFailed])
            else (case typing e of
                    Raises x \<Rightarrow> (Raises x, evs @ [TypingReply message])
                  | Returns u \<Rightarrow> (Returns True, evs @ [TypingReply message, Sent message])))
       (\<lambda>m. (False, [ReplyFailed m]))"

section \<open>The main loop (main, lines 252-311)\<close>

text \<open>
  \<^verbatim>\<open>time.sleep(SCAN_INTERVAL)\<close> inside the \<^verbatim>\<open>try\<close> block, followed by \<^verbatim>\<open>continue\<close> or by
  the end of the block.
\<close>

definition sleep_scan ::
  "env \<Rightarrow> bot_state \<Rightarrow> event list \<Rightarrow> unit outcome \<times> bot_state \<times> event list" where
  "sleep_scan e s evs =
     (case sleep_body e of
        Returns u \<Rightarrow> (Returns (), s, evs @ [Slept SCAN_INTERVAL])
      | Raises x \<Rightarrow> (Raises x, s, evs))"

text \<open>
  Lines 286-304: acting on the decision. Line 287 reads \<^verbatim>\<open>result['message_detected']\<close>,
  which raises \<^verbatim>\<open>KeyError\<close> when the oracle's object has no such member.
\<close>

definition reply_phase ::
  "env \<Rightarrow> string \<Rightarrow> (string \<times> json) list \<Rightarrow> bot_state \<Rightarrow> event list
     \<Rightarrow> unit outcome \<times> bot_state \<times> event list" where
  "reply_phase e img_hash result s evs =
     (if truthy_get result ''should_reply'' \<and> truthy_get result ''reply'' then
        (case map_of result ''message_detected'' of
           None \<Rightarrow> (Raises (Exception ''KeyError''), s, evs)
         | Some detected \<Rightarrow>
             (case map_of result ''reply'' of
                None \<Rightarrow> (Raises (Exception ''KeyError''), s, evs @ [PreparingReply detected])
              | Some reply \<Rightarrow>
                  (case send_reply e reply of
                     (Raises x, evs') \<Rightarrow> (Raises x, s, evs @ [PreparingReply detected] @ evs')
                   | (Returns ok, evs') \<Rightarrow>
                       sleep_scan e
                         (if ok then bookkeeping img_hash (t_record e) (t_cleanup e) s else s)
                         (evs @ [PreparingReply detected] @ evs'))))
      else sleep_scan e s (evs @ [NoReplyNeeded]))"

text \<open>
  Lines 269-284: fingerprint, cooldown gate, rate-limit gate, oracle. The counter is passed
  on as \<^verbatim>\<open>check_rate_limit\<close> has left it.
\<close>

definition gate_phase ::
  "(string \<Rightarrow> string) \<Rightarrow> (string \<Rightarrow> json outcome) \<Rightarrow> env \<Rightarrow> string \<Rightarrow> bot_state \<Rightarrow> event list
     \<Rightarrow> unit outcome \<times> bot_state \<times> event list" where
  "gate_phase md5_hexdigest loads e chat_img s evs =
     (let img_hash = generate_image_hash md5_hexdigest chat_img in
      if cooldown_active (t_gate e) (message_history s) img_hash
      then sleep_scan e s (evs @ [CooldownActive])
      else (case check_rate_limit (t_rate e) s of
              (allowed, s1) \<Rightarrow>
                if \<not> allowed then sleep_scan e s1 (evs @ [RateLimitReached])
                else (case analyze_message_and_generate_reply loads e of
                        (Raises x, evs') \<Rightarrow> (Raises x, s1, evs @ evs')
                      | (Returns result, evs') \<Rightarrow>
                          reply_phase e img_hash result s1 (evs @ evs'))))"

text \<open>The \<^verbatim>\<open>try\<close> block of one pass, lines 254-304.\<close>

definition try_block ::
  "(string \<Rightarrow> string) \<Rightarrow> (string \<Rightarrow> json outcome) \<Rightarrow> env \<Rightarrow> bot_state
     \<Rightarrow> unit outcome \<times> bot_state \<times> event list" where
  "try_block md5_hexdigest loads e s =
     (case focus_whatsapp e of
        (Raises x, evs) \<Rightarrow> (Raises x, s, Checking # evs)
      | (Returns focused, evs) \<Rightarrow>
          if \<not> focused then sleep_scan e s (Checking # evs)
          else (case get_chat_image e of
                  (Raises x, evs') \<Rightarrow> (Raises x, s, Checking # evs @ evs')
                | (Returns None, evs') \<Rightarrow> sleep_scan e s (Checking # evs @ evs')
                | (Returns (Some chat_img), evs') \<Rightarrow>
                    gate_phase md5_hexdigest loads e chat_img s (Checking # evs @ evs')))"

text \<open>
  One pass of \<^verbatim>\<open>while True\<close> with its two \<^verbatim>\<open>except\<close> clauses (lines 306-311): the loop
  goes on, is left by \<^verbatim>\<open>break\<close>, or is left by an exception that no clause catches. An
  exception raised by the \<^verbatim>\<open>time.sleep\<close> of line 311 is raised inside a handler and so
  leaves the loop as well.
\<close>

datatype control = Continue | Break | Propagate exn

definition loop_iteration ::
  "(string \<Rightarrow> string) \<Rightarrow> (string \<Rightarrow> json outcome) \<Rightarrow> env \<Rightarrow> bot_state
     \<Rightarrow> control \<times> bot_state \<times> event list" where
  "loop_iteration md5_hexdigest loads e s =
     (case try_block md5_hexdigest loads e s of
        (Returns u, s', evs) \<Rightarrow> (Continue, s', evs)
      | (Raises x, s', evs) \<Rightarrow>
          if x = KeyboardInterrupt then (Break, s', evs @ [BotStopped])
          else if is_Exception x then
            (case sleep_handler e of
               Returns u \<Rightarrow> (Continue, s', evs @ [LoopError (exn_message x), Slept SCAN_INTERVAL])
             | Raises y \<Rightarrow> (Propagate y, s', evs @ [LoopError (exn_message x)]))
          else (Propagate x, s', evs))"

text \<open>
  The loop over the passes that the given finite sequence of environments describes. It
  stops early when a pass leaves the loop.
\<close>

fun run ::
  "(string \<Rightarrow> string) \<Rightarrow> (string \<Rightarrow> json outcome) \<Rightarrow> env list \<Rightarrow> bot_state
     \<Rightarrow> control \<times> bot_state \<times> event list" where
  "run md5_hexdigest loads [] s = (Continue, s, [])"
| "run md5_hexdigest loads (e # es) s =
     (case loop_iteration md5_hexdigest loads e s of
        (Continue, s', evs) \<Rightarrow>
          (case run md5_hexdigest loads es s' of (c, s'', evs') \<Rightarrow> (c, s'', evs @ evs'))
      | (Break, s', evs) \<Rightarrow> (Break, s', evs)
      | (Propagate x, s', evs) \<Rightarrow> (Propagate x, s', evs))"

text \<open>Lines 46-47: the state at start-up, \<open>t0\<close> being the clock reading of line 47.\<close>

definition initial_state :: "real \<Rightarrow> bot_state" where
  "initial_state t0 = \<lparr>message_history = [], count = 0, reset_time = t0\<rparr>"

section \<open>The first end-to-end scenario of the specification, as concrete data\<close>

text \<open>
  Every library call succeeds, every clock reading of the pass is \<open>t\<close>, the screenshot has
  the fingerprint \<^verbatim>\<open>abc123\<close> and the oracle's answer parses to a decision to reply.
\<close>

definition scenario_env :: "real \<Rightarrow> env" where
  "scenario_env t =
     \<lparr>focus_windows = Returns True, focus_activate = Returns (),
      capture_windows = Returns True, capture_shot = Returns ''pixels'',
      t_gate = t, t_rate = t, generate_content = Returns ''{...}'',
      click_windows = Returns True, click_input = Returns (), typing = Returns (),
      t_record = t, t_cleanup = t, sleep_body = Returns (), sleep_handler = Returns ()\<rparr>"

definition scenario_md5 :: "string \<Rightarrow> string" where
  "scenario_md5 img = ''abc123''"

definition scenario_loads :: "string \<Rightarrow> json outcome" where
  "scenario_loads r =
     Returns (JObj [(''should_reply'', JBool True), (''message_detected'', JStr ''good morning''),
                    (''reply'', JStr ''morning!'')])"

section \<open>Environments in which no call raises outside the class Exception\<close>

text \<open>
  An outcome is benign when the call returns or raises an exception of a class under
  \<^verbatim>\<open>Exception\<close>. An environment is benign when this holds of every library call made
  inside the \<^verbatim>\<open>try\<close> block of the loop.
\<close>

definition benign :: "'a outcome \<Rightarrow> bool" where
  "benign r = (case r of Returns v \<Rightarrow> True | Raises x \<Rightarrow> is_Exception x)"

definition env_benign :: "env \<Rightarrow> bool" where
  "env_benign e =
     (benign (focus_windows e) \<and> benign (focus_activate e) \<and> benign (capture_windows e)
      \<and> benign (capture_shot e) \<and> benign (generate_content e) \<and> benign (click_windows e)
      \<and> benign (click_input e) \<and> benign (typing e) \<and> benign (sleep_body e))"

section \<open>The oracle's answer of the first scenario as JSON text\<close>

text \<open>
  The text \<^verbatim>\<open>{"should_reply": true, "message_detected": "good morning", "reply": "morning!"}\<close>
  and what \<^verbatim>\<open>json.loads\<close> makes of it. \<open>scenario_json_loads\<close> agrees with
  \<^verbatim>\<open>json.loads\<close> on this text, on the empty string and on strings that are not JSON, which
  are the only ones it is applied to below.
\<close>

definition quoted :: "string \<Rightarrow> string" where
  "quoted s = CHR 0x22 # s @ [CHR 0x22]"

definition scenario_json :: string where
  "scenario_json =
     ''{'' @ quoted ''should_reply'' @ '': true, '' @ quoted ''message_detected'' @ '': ''
       @ quoted ''good morning'' @ '', '' @ quoted ''reply'' @ '': '' @ quoted ''morning!''
       @ ''}''"

definition scenario_decision :: "(string \<times> json) list" where
  "scenario_decision =
     [(''should_reply'', JBool True), (''message_detected'', JStr ''good morning''),
      (''reply'', JStr ''morning!'')]"

definition scenario_json_loads :: "string \<Rightarrow> json outcome" where
  "scenario_json_loads r =
     (if r = scenario_json then Returns (JObj scenario_decision)
      else Raises (JSONDecodeError ''Expecting value''))"

section \<open>Auxiliary facts\<close>

lemmas pass_defs =
  loop_iteration_def try_block_def focus_whatsapp_def get_chat_image_def
  except_Exception_def gate_phase_def generate_image_hash_def cooldown_active_def dict_get_def
  REPLY_COOLDOWN_def check_rate_limit_def MAX_REPLIES_PER_HOUR_def
  analyze_message_and_generate_reply_def analyze_handlers_def strip_def py_isspace_def
  extract_json_def fence_def fence_json_def reply_phase_def truthy_get_def send_reply_def
  click_on_chat_area_and_input_def bookkeeping_def record_reply_def clear_history_def
  prune_history_def dict_clear_def dict_set_def sleep_scan_def SCAN_INTERVAL_def

lemmas scenario_defs =
  scenario_md5_def scenario_env_def scenario_loads_def initial_state_def

subsection \<open>Which events a phase can add to the console\<close>

lemma except_Exception_events:
  "ev \<notin> set (snd body) \<Longrightarrow> (\<And>m. ev \<notin> set (snd (handler m))) \<Longrightarrow>
   ev \<notin> set (snd (except_Exception body handler))"
proof (cases body)
  case (Pair r evs)
  assume a: "ev \<notin> set (snd body)" and b: "\<And>m. ev \<notin> set (snd (handler m))"
  show ?thesis
  proof (cases r)
    case (Returns v)
    with Pair a show ?thesis by (simp add: except_Exception_def)
  next
    case (Raises x)
    obtain v evs' where h: "handler (exn_message x) = (v, evs')" by (cases "handler (exn_message x)")
    with b[of "exn_message x"] have "ev \<notin> set evs'" by simp
    with Pair Raises a h show ?thesis by (simp add: except_Exception_def)
  qed
qed

lemma focus_no_oracle: "OracleInvoked \<notin> set (snd (focus_whatsapp e))"
  unfolding focus_whatsapp_def
  by (rule except_Exception_events) (auto split: outcome.splits)

lemma capture_no_oracle: "OracleInvoked \<notin> set (snd (get_chat_image e))"
  unfolding get_chat_image_def
  by (rule except_Exception_events) (auto split: outcome.splits)

lemma focus_no_cooldown: "CooldownActive \<notin> set (snd (focus_whatsapp e))"
  unfolding focus_whatsapp_def
  by (rule except_Exception_events) (auto split: outcome.splits)

lemma capture_no_cooldown: "CooldownActive \<notin> set (snd (get_chat_image e))"
  unfolding get_chat_image_def
  by (rule except_Exception_events) (auto split: outcome.splits)

lemma sleep_scan_events:
  "set (snd (snd (sleep_scan e s evs))) \<subseteq> set evs \<union> {Slept SCAN_INTERVAL}"
  by (auto simp: sleep_scan_def split: outcome.splits)

lemma sleep_scan_state: "fst (snd (sleep_scan e s evs)) = s"
  by (auto simp: sleep_scan_def split: outcome.splits)

lemma analyze_no_cooldown:
  "CooldownActive \<notin> set (snd (analyze_message_and_generate_reply loads e))"
  by (auto simp: analyze_message_and_generate_reply_def analyze_handlers_def Let_def
      split: outcome.splits exn.splits option.splits json.splits)

lemma click_no_cooldown: "CooldownActive \<notin> set (snd (click_on_chat_area_and_input e))"
  unfolding click_on_chat_area_and_input_def
  by (rule except_Exception_events) (auto split: outcome.splits)

lemma send_no_cooldown: "CooldownActive \<notin> set (snd (send_reply e m))"
  unfolding send_reply_def
  using click_no_cooldown[of e]
  by (intro except_Exception_events) (auto split: outcome.splits prod.splits)

lemma sleep_scan_notin:
  "ev \<notin> set evs \<Longrightarrow> ev \<noteq> Slept SCAN_INTERVAL \<Longrightarrow> ev \<notin> set (snd (snd (sleep_scan e s evs)))"
  using sleep_scan_events[of e s evs] by auto

lemma reply_phase_notin:
  assumes "ev \<notin> set evs" and "\<And>d. ev \<noteq> PreparingReply d" and "ev \<noteq> NoReplyNeeded"
    and "ev \<noteq> Slept SCAN_INTERVAL" and "\<And>m. ev \<notin> set (snd (send_reply e m))"
  shows "ev \<notin> set (snd (snd (reply_phase e h r s evs)))"
proof (cases "truthy_get r ''should_reply'' \<and> truthy_get r ''reply''")
  case False
  then have "reply_phase e h r s evs = sleep_scan e s (evs @ [NoReplyNeeded])"
    unfolding reply_phase_def by (simp only: if_False)
  with assms show ?thesis by (simp add: sleep_scan_notin)
next
  case True
  show ?thesis
  proof (cases "map_of r ''message_detected''")
    case None
    with True assms show ?thesis by (simp add: reply_phase_def)
  next
    case (Some d)
    show ?thesis
    proof (cases "map_of r ''reply''")
      case None
      with True Some assms show ?thesis by (simp add: reply_phase_def)
    next
      case rp: (Some m)
      obtain res evs' where sr: "send_reply e m = (res, evs')" by (cases "send_reply e m")
      with assms(5)[of m] have n: "ev \<notin> set evs'" by simp
      show ?thesis
      proof (cases res)
        case (Raises x)
        with True Some rp sr n assms show ?thesis by (simp add: reply_phase_def)
      next
        case (Returns ok)
        with True Some rp sr n assms show ?thesis
          by (simp add: reply_phase_def sleep_scan_notin)
      qed
    qed
  qed
qed

lemma gate_phase_notin:
  assumes "ev \<notin> set evs" and "\<And>d. ev \<noteq> PreparingReply d" and "ev \<noteq> NoReplyNeeded"
    and "ev \<noteq> Slept SCAN_INTERVAL" and "\<And>m. ev \<notin> set (snd (send_reply e m))"
    and "ev \<notin> set (snd (analyze_message_and_generate_reply loads e))"
    and "ev \<noteq> RateLimitReached"
    and "\<not> cooldown_active (t_gate e) (message_history s) (generate_image_hash md5 img)"
  shows "ev \<notin> set (snd (snd (gate_phase md5 loads e img s evs)))"
proof -
  obtain allowed s1 where c: "check_rate_limit (t_rate e) s = (allowed, s1)"
    by (cases "check_rate_limit (t_rate e) s")
  obtain res evs' where a: "analyze_message_and_generate_reply loads e = (res, evs')"
    by (cases "analyze_message_and_generate_reply loads e")
  with assms(6) have n: "ev \<notin> set evs'" by simp
  show ?thesis
  proof (cases allowed)
    case False
    with c assms show ?thesis by (simp add: gate_phase_def sleep_scan_notin)
  next
    case True
    show ?thesis
    proof (cases res)
      case (Raises x)
      with True c a n assms show ?thesis by (simp add: gate_phase_def)
    next
      case (Returns result)
      have "ev \<notin> set (snd (snd (reply_phase e (generate_image_hash md5 img) result s1 (evs @ evs'))))"
        using assms n by (intro reply_phase_notin) auto
      with Returns True c a assms show ?thesis by (simp add: gate_phase_def)
    qed
  qed
qed

subsection \<open>What a pass can do to the state\<close>

lemma reply_phase_state:
  "fst (snd (reply_phase e h r s evs)) = s
   \<or> ((\<exists>m. fst (send_reply e m) = Returns True)
       \<and> fst (snd (reply_phase e h r s evs)) = bookkeeping h (t_record e) (t_cleanup e) s)"
proof (cases "truthy_get r ''should_reply'' \<and> truthy_get r ''reply''")
  case False
  then have "reply_phase e h r s evs = sleep_scan e s (evs @ [NoReplyNeeded])"
    unfolding reply_phase_def by (simp only: if_False)
  then show ?thesis by (simp add: sleep_scan_state)
next
  case True
  show ?thesis
  proof (cases "map_of r ''message_detected''")
    case None
    with True show ?thesis by (simp add: reply_phase_def)
  next
    case (Some d)
    show ?thesis
    proof (cases "map_of r ''reply''")
      case None
      with True Some show ?thesis by (simp add: reply_phase_def)
    next
      case rp: (Some m)
      obtain res evs' where sr: "send_reply e m = (res, evs')" by (cases "send_reply e m")
      show ?thesis
      proof (cases res)
        case (Raises x)
        with True Some rp sr show ?thesis by (simp add: reply_phase_def)
      next
        case (Returns ok)
        show ?thesis
        proof (cases ok)
          case False
          with Returns True Some rp sr show ?thesis
            by (simp add: reply_phase_def sleep_scan_state)
        next
          case ok: True
          with Returns sr have "fst (send_reply e m) = Returns True" by simp
          then have "\<exists>m. fst (send_reply e m) = Returns True" ..
          with ok Returns True Some rp sr show ?thesis
            by (simp add: reply_phase_def sleep_scan_state)
        qed
      qed
    qed
  qed
qed

lemma gate_phase_state:
  "fst (snd (gate_phase md5 loads e img s evs)) = s
   \<or> fst (snd (gate_phase md5 loads e img s evs)) = snd (check_rate_limit (t_rate e) s)
   \<or> (fst (check_rate_limit (t_rate e) s) \<and> (\<exists>m. fst (send_reply e m) = Returns True)
       \<and> fst (snd (gate_phase md5 loads e img s evs))
           = bookkeeping (generate_image_hash md5 img) (t_record e) (t_cleanup e)
               (snd (check_rate_limit (t_rate e) s)))"
proof (cases "cooldown_active (t_gate e) (message_history s) (generate_image_hash md5 img)")
  case True
  then show ?thesis by (simp add: gate_phase_def sleep_scan_state)
next
  case False
  obtain allowed s1 where c: "check_rate_limit (t_rate e) s = (allowed, s1)"
    by (cases "check_rate_limit (t_rate e) s")
  obtain res evs' where a: "analyze_message_and_generate_reply loads e = (res, evs')"
    by (cases "analyze_message_and_generate_reply loads e")
  show ?thesis
  proof (cases allowed)
    case na: False
    with False c show ?thesis by (simp add: gate_phase_def sleep_scan_state)
  next
    case al: True
    show ?thesis
    proof (cases res)
      case (Raises x)
      with False al c a show ?thesis by (simp add: gate_phase_def)
    next
      case (Returns result)
      with False al c a have
        "gate_phase md5 loads e img s evs
           = reply_phase e (generate_image_hash md5 img) result s1 (evs @ evs')"
        by (simp add: gate_phase_def)
      with reply_phase_state [of e "generate_image_hash md5 img" result s1 "evs @ evs'"] al c
      show ?thesis by auto
    qed
  qed
qed

lemma try_block_state:
  "fst (snd (try_block md5 loads e s)) = s
   \<or> fst (snd (try_block md5 loads e s)) = snd (check_rate_limit (t_rate e) s)
   \<or> (fst (check_rate_limit (t_rate e) s) \<and> (\<exists>m. fst (send_reply e m) = Returns True)
       \<and> (\<exists>h. fst (snd (try_block md5 loads e s))
           = bookkeeping h (t_record e) (t_cleanup e) (snd (check_rate_limit (t_rate e) s))))"
proof -
  obtain rf ef where f: "focus_whatsapp e = (rf, ef)" by (cases "focus_whatsapp e")
  obtain rc ec where c: "get_chat_image e = (rc, ec)" by (cases "get_chat_image e")
  show ?thesis
  proof (cases rf)
    case (Raises x)
    with f show ?thesis by (simp add: try_block_def)
  next
    case (Returns focused)
    show ?thesis
    proof (cases focused)
      case False
      with Returns f show ?thesis by (simp add: try_block_def sleep_scan_state)
    next
      case True
      show ?thesis
      proof (cases rc)
        case (Raises x)
        with True Returns f c show ?thesis by (simp add: try_block_def)
      next
        case rr: (Returns img)
        show ?thesis
        proof (cases img)
          case None
          with rr True Returns f c show ?thesis by (simp add: try_block_def sleep_scan_state)
        next
          case (Some chat_img)
          with rr True Returns f c have
            "try_block md5 loads e s = gate_phase md5 loads e chat_img s (Checking # ef @ ec)"
            by (simp add: try_block_def)
          with gate_phase_state [of md5 loads e chat_img s "Checking # ef @ ec"]
          show ?thesis by auto
        qed
      qed
    qed
  qed
qed

lemma loop_iteration_state:
  "fst (snd (loop_iteration md5 loads e s)) = fst (snd (try_block md5 loads e s))"
  by (cases "try_block md5 loads e s")
     (auto simp: loop_iteration_def split: outcome.splits)

lemma loop_iteration_events:
  "set (snd (snd (loop_iteration md5 loads e s)))
     \<subseteq> set (snd (snd (try_block md5 loads e s)))
         \<union> {BotStopped, Slept SCAN_INTERVAL} \<union> range LoopError"
  by (cases "try_block md5 loads e s")
     (auto simp: loop_iteration_def split: outcome.splits)

lemma try_block_rate_suppressed:
  assumes "count s \<ge> MAX_REPLIES_PER_HOUR" and "t_rate e - reset_time s \<le> 3600"
  shows "fst (snd (try_block md5 loads e s)) = s
         \<and> OracleInvoked \<notin> set (snd (snd (try_block md5 loads e s)))"
proof -
  obtain rf ef where f: "focus_whatsapp e = (rf, ef)" by (cases "focus_whatsapp e")
  obtain rc ec where c: "get_chat_image e = (rc, ec)" by (cases "get_chat_image e")
  from f focus_no_oracle [of e] have nf: "OracleInvoked \<notin> set ef" by simp
  from c capture_no_oracle [of e] have nc: "OracleInvoked \<notin> set ec" by simp
  from assms have chk: "check_rate_limit (t_rate e) s = (False, s)"
    by (simp add: check_rate_limit_def)
  have gate: "fst (snd (gate_phase md5 loads e img s evs)) = s
      \<and> OracleInvoked \<notin> set (snd (snd (gate_phase md5 loads e img s evs)))"
    if "OracleInvoked \<notin> set evs" for img evs
    using that chk by (simp add: gate_phase_def Let_def sleep_scan_state sleep_scan_notin)
  show ?thesis
  proof (cases rf)
    case (Raises x)
    with f nf show ?thesis by (simp add: try_block_def)
  next
    case (Returns focused)
    show ?thesis
    proof (cases focused)
      case False
      with Returns f nf show ?thesis
        by (simp add: try_block_def sleep_scan_state sleep_scan_notin)
    next
      case True
      show ?thesis
      proof (cases rc)
        case (Raises x)
        with True Returns f c nf nc show ?thesis by (simp add: try_block_def)
      next
        case rr: (Returns img)
        show ?thesis
        proof (cases img)
          case None
          with rr True Returns f c nf nc show ?thesis
            by (simp add: try_block_def sleep_scan_state sleep_scan_notin)
        next
          case (Some chat_img)
          with rr True Returns f c have
            "try_block md5 loads e s = gate_phase md5 loads e chat_img s (Checking # ef @ ec)"
            by (simp add: try_block_def)
          with gate [of "Checking # ef @ ec" chat_img] nf nc show ?thesis by simp
        qed
      qed
    qed
  qed
qed

lemma loop_iteration_rate_suppressed:
  assumes "count s \<ge> MAX_REPLIES_PER_HOUR" and "t_rate e - reset_time s \<le> 3600"
  shows "fst (snd (loop_iteration md5 loads e s)) = s
         \<and> OracleInvoked \<notin> set (snd (snd (loop_iteration md5 loads e s)))"
  using try_block_rate_suppressed [OF assms, of md5 loads]
    loop_iteration_events [of md5 loads e s]
  by (auto simp: loop_iteration_state)

lemma check_rate_limit_count:
  "count s \<le> MAX_REPLIES_PER_HOUR \<Longrightarrow>
   count (snd (check_rate_limit t s)) \<le> MAX_REPLIES_PER_HOUR
   \<and> (fst (check_rate_limit t s) \<longrightarrow> count (snd (check_rate_limit t s)) < MAX_REPLIES_PER_HOUR)"
  by (auto simp: check_rate_limit_def MAX_REPLIES_PER_HOUR_def Let_def)

lemma bookkeeping_count: "count (bookkeeping h t t' s) = count s + 1"
  by (simp add: bookkeeping_def prune_history_def clear_history_def record_reply_def)

lemma loop_iteration_count:
  assumes "count s \<le> MAX_REPLIES_PER_HOUR"
  shows "count (fst (snd (loop_iteration md5 loads e s))) \<le> MAX_REPLIES_PER_HOUR"
  using try_block_state [of md5 loads e s] check_rate_limit_count [OF assms, of "t_rate e"] assms
  by (auto simp: loop_iteration_state bookkeeping_count)

lemma run_count:
  "count s \<le> MAX_REPLIES_PER_HOUR \<Longrightarrow>
   count (fst (snd (run md5 loads es s))) \<le> MAX_REPLIES_PER_HOUR"
proof (induction es arbitrary: s)
  case Nil
  then show ?case by simp
next
  case (Cons e es)
  obtain c s' evs where it: "loop_iteration md5 loads e s = (c, s', evs)"
    by (cases "loop_iteration md5 loads e s")
  with loop_iteration_count [OF Cons.prems, of md5 loads e]
  have b: "count s' \<le> MAX_REPLIES_PER_HOUR" by simp
  show ?case
  proof (cases c)
    case Continue
    obtain c2 s2 evs2 where r: "run md5 loads es s' = (c2, s2, evs2)"
      by (cases "run md5 loads es s'")
    with Cons.IH [OF b] have "count s2 \<le> MAX_REPLIES_PER_HOUR" by simp
    with Continue it r show ?thesis by simp
  next
    case Break
    with it b show ?thesis by simp
  next
    case (Propagate x)
    with it b show ?thesis by simp
  qed
qed

subsection \<open>Splitting and fence stripping\<close>

lemma split_from_nonempty: "split_from sep cur s \<noteq> []"
  by (induction sep cur s rule: split_from.induct) auto

lemma split_from_skip:
  "c0 \<notin> set xs \<Longrightarrow>
   split_from (c0 # rest) cur (xs @ ys) = split_from (c0 # rest) (cur @ xs) ys"
proof (induction xs arbitrary: cur)
  case Nil
  then show ?case by simp
next
  case (Cons x xs)
  then have "x \<noteq> c0" and "c0 \<notin> set xs" by auto
  with Cons.IH [of "cur @ [x]"] show ?case by simp
qed

lemma split_from_two:
  "sep \<noteq> [] \<Longrightarrow> contains sep s \<Longrightarrow> 2 \<le> length (split_from sep cur s)"
proof (induction sep cur s rule: split_from.induct)
  case (1 sep cur)
  then show ?case by simp
next
  case (2 sep cur c cs)
  show ?case
  proof (cases "take (length sep) (c # cs) = sep")
    case True
    with 2 split_from_nonempty [of sep "[]" "drop (length sep) (c # cs)"] show ?thesis
      by (cases "split_from sep [] (drop (length sep) (c # cs))") auto
  next
    case False
    with 2 show ?thesis by auto
  qed
qed

lemma extract_json_returns: "\<exists>r. extract_json x = Returns r"
proof -
  have fj: "fence_json \<noteq> []" and f: "fence \<noteq> []"
    by (simp_all add: fence_json_def fence_def)
  have zero: "\<exists>b. index (str_split fence a) 0 = Returns b" for a
    using split_from_nonempty [of fence "[]" a] by (simp add: index_def str_split_def)
  show ?thesis
  proof (cases "contains fence_json x")
    case True
    with fj have "2 \<le> length (str_split fence_json x)"
      unfolding str_split_def by (rule split_from_two)
    then obtain a where "index (str_split fence_json x) 1 = Returns a"
      by (auto simp: index_def)
    moreover from zero obtain b where "index (str_split fence a) 0 = Returns b" by blast
    ultimately show ?thesis using True by (simp add: extract_json_def)
  next
    case False
    show ?thesis
    proof (cases "contains fence x")
      case True
      with f have "2 \<le> length (str_split fence x)"
        unfolding str_split_def by (rule split_from_two)
      then obtain a where "index (str_split fence x) 1 = Returns a"
        by (auto simp: index_def)
      moreover from zero obtain b where "index (str_split fence a) 0 = Returns b" by blast
      ultimately show ?thesis using True False by (simp add: extract_json_def)
    next
      case nf: False
      with False show ?thesis by (simp add: extract_json_def)
    qed
  qed
qed

lemma extract_json_fenced:
  assumes "CHR 0x60 \<notin> set body"
  shows "extract_json (fence_json @ body @ fence) = Returns (strip body)"
proof -
  have c: "contains fence_json (fence_json @ body @ fence)"
    by (simp add: fence_json_def fence_def)
  have "split_from fence_json [] (body @ fence) = split_from fence_json body fence"
    using split_from_skip [OF assms, of "tl fence_json" "[]" fence]
    by (simp add: fence_json_def fence_def)
  also have "\<dots> = [body @ fence]"
    by (simp add: fence_json_def fence_def)
  finally have s1: "str_split fence_json (fence_json @ body @ fence) = [[], body @ fence]"
    by (simp add: str_split_def fence_json_def fence_def)
  have "split_from fence [] (body @ fence) = split_from fence body fence"
    using split_from_skip [OF assms, of "tl fence" "[]" fence] by (simp add: fence_def)
  also have "\<dots> = [body, []]"
    by (simp add: fence_def)
  finally have s2: "str_split fence (body @ fence) = [body, []]"
    by (simp add: str_split_def)
  from c s1 s2 show ?thesis by (simp add: extract_json_def index_def)
qed

lemma extract_json_open_fence_only:
  assumes "CHR 0x60 \<notin> set body"
  shows "extract_json (fence_json @ body) = Returns (strip body)"
proof -
  have c: "contains fence_json (fence_json @ body)"
    by (simp add: fence_json_def fence_def)
  have "split_from fence_json [] body = split_from fence_json body []"
    using split_from_skip [OF assms, of "tl fence_json" "[]" "[]"]
    by (simp add: fence_json_def fence_def)
  then have s1: "str_split fence_json (fence_json @ body) = [[], body]"
    by (simp add: str_split_def fence_json_def fence_def)
  have "split_from fence [] body = split_from fence body []"
    using split_from_skip [OF assms, of "tl fence" "[]" "[]"] by (simp add: fence_def)
  then have s2: "str_split fence body = [body]"
    by (simp add: str_split_def)
  from c s1 s2 show ?thesis by (simp add: extract_json_def index_def)
qed

subsection \<open>Exceptions that leave a phase, and how a completed phase ends\<close>

lemma except_Exception_benign:
  "benign (fst body) \<Longrightarrow> \<exists>v. fst (except_Exception body handler) = Returns v"
  by (cases body; cases "fst body")
     (auto simp: except_Exception_def benign_def split: prod.splits)

lemma focus_returns: "env_benign e \<Longrightarrow> \<exists>b. fst (focus_whatsapp e) = Returns b"
  unfolding focus_whatsapp_def
  by (rule except_Exception_benign) (auto simp: env_benign_def benign_def split: outcome.splits)

lemma capture_returns: "env_benign e \<Longrightarrow> \<exists>b. fst (get_chat_image e) = Returns b"
  unfolding get_chat_image_def
  by (rule except_Exception_benign) (auto simp: env_benign_def benign_def split: outcome.splits)

lemma click_returns: "env_benign e \<Longrightarrow> \<exists>b. fst (click_on_chat_area_and_input e) = Returns b"
  unfolding click_on_chat_area_and_input_def
  by (rule except_Exception_benign) (auto simp: env_benign_def benign_def split: outcome.splits)

lemma send_returns:
  assumes "env_benign e"
  shows "\<exists>b. fst (send_reply e m) = Returns b"
proof -
  from click_returns [OF assms] obtain b evs where
    c: "click_on_chat_area_and_input e = (Returns b, evs)"
    by (cases "click_on_chat_area_and_input e") auto
  from assms have "benign (typing e)" by (simp add: env_benign_def)
  with c show ?thesis
    unfolding send_reply_def
    by (intro except_Exception_benign) (auto simp: benign_def split: outcome.splits)
qed

lemma analyze_benign:
  assumes "env_benign e" and "\<And>r. benign (loads r)"
  shows "benign (fst (analyze_message_and_generate_reply loads e))"
proof (cases "generate_content e")
  case (Raises x)
  with assms(1) have "is_Exception x" by (simp add: env_benign_def benign_def)
  with Raises show ?thesis
    by (cases x)
       (simp_all add: analyze_message_and_generate_reply_def analyze_handlers_def benign_def)
next
  case (Returns response)
  from extract_json_returns obtain r where r: "extract_json (strip response) = Returns r"
    by blast
  show ?thesis
  proof (cases "loads r")
    case rl: (Raises x)
    with assms(2) [of r] have "is_Exception x" by (simp add: benign_def)
    with Returns r rl show ?thesis
      by (cases x)
         (simp_all add: analyze_message_and_generate_reply_def analyze_handlers_def benign_def)
  next
    case rr: (Returns data)
    with Returns r show ?thesis
      by (cases data)
         (simp_all add: analyze_message_and_generate_reply_def analyze_handlers_def benign_def)
  qed
qed

lemma sleep_scan_benign: "env_benign e \<Longrightarrow> benign (fst (sleep_scan e s evs))"
  by (auto simp: sleep_scan_def env_benign_def benign_def split: outcome.splits)

lemma sleep_scan_last:
  "fst (sleep_scan e s evs) = Returns u \<Longrightarrow>
   snd (snd (sleep_scan e s evs)) \<noteq> [] \<and> last (snd (snd (sleep_scan e s evs))) = Slept SCAN_INTERVAL"
  by (auto simp: sleep_scan_def split: outcome.splits)

lemma reply_phase_cases:
  "(\<exists>s' evs'. reply_phase e h r s evs = sleep_scan e s' evs')
   \<or> fst (reply_phase e h r s evs) = Raises (Exception ''KeyError'')
   \<or> (\<exists>m x. fst (send_reply e m) = Raises x \<and> fst (reply_phase e h r s evs) = Raises x)"
proof (cases "truthy_get r ''should_reply'' \<and> truthy_get r ''reply''")
  case False
  then have "reply_phase e h r s evs = sleep_scan e s (evs @ [NoReplyNeeded])"
    unfolding reply_phase_def by (simp only: if_False)
  then show ?thesis by blast
next
  case True
  show ?thesis
  proof (cases "map_of r ''message_detected''")
    case None
    with True show ?thesis by (simp add: reply_phase_def)
  next
    case (Some d)
    show ?thesis
    proof (cases "map_of r ''reply''")
      case None
      with True Some show ?thesis by (simp add: reply_phase_def)
    next
      case rp: (Some m)
      obtain res evs' where sr: "send_reply e m = (res, evs')" by (cases "send_reply e m")
      show ?thesis
      proof (cases res)
        case (Raises x)
        with sr have "fst (send_reply e m) = Raises x" by simp
        moreover from Raises True Some rp sr have "fst (reply_phase e h r s evs) = Raises x"
          by (simp add: reply_phase_def)
        ultimately show ?thesis by blast
      next
        case (Returns ok)
        with True Some rp sr have
          "reply_phase e h r s evs
             = sleep_scan e (if ok then bookkeeping h (t_record e) (t_cleanup e) s else s)
                 (evs @ [PreparingReply d] @ evs')"
          by (simp add: reply_phase_def)
        then show ?thesis by blast
      qed
    qed
  qed
qed

lemma reply_phase_benign:
  assumes "env_benign e"
  shows "benign (fst (reply_phase e h r s evs))"
  using reply_phase_cases [of e h r s evs]
proof (elim disjE exE conjE)
  fix s' evs' assume "reply_phase e h r s evs = sleep_scan e s' evs'"
  with sleep_scan_benign [OF assms, of s' evs'] show ?thesis by simp
next
  assume "fst (reply_phase e h r s evs) = Raises (Exception ''KeyError'')"
  then show ?thesis by (simp add: benign_def)
next
  fix m x assume "fst (send_reply e m) = Raises x"
  with send_returns [OF assms, of m] show ?thesis by simp
qed

lemma reply_phase_last:
  assumes "fst (reply_phase e h r s evs) = Returns u"
  shows "snd (snd (reply_phase e h r s evs)) \<noteq> []
         \<and> last (snd (snd (reply_phase e h r s evs))) = Slept SCAN_INTERVAL"
  using reply_phase_cases [of e h r s evs]
proof (elim disjE exE conjE)
  fix s' evs' assume eq: "reply_phase e h r s evs = sleep_scan e s' evs'"
  with assms have "fst (sleep_scan e s' evs') = Returns u" by simp
  from sleep_scan_last [OF this] eq show ?thesis by simp
next
  assume "fst (reply_phase e h r s evs) = Raises (Exception ''KeyError'')"
  with assms show ?thesis by simp
next
  fix m x assume "fst (reply_phase e h r s evs) = Raises x"
  with assms show ?thesis by simp
qed

lemma gate_phase_cases:
  "(\<exists>s' evs'. gate_phase md5 loads e img s evs = sleep_scan e s' evs')
   \<or> (\<exists>h r s' evs'. gate_phase md5 loads e img s evs = reply_phase e h r s' evs')
   \<or> (\<exists>x. fst (analyze_message_and_generate_reply loads e) = Raises x
          \<and> fst (gate_phase md5 loads e img s evs) = Raises x)"
proof (cases "cooldown_active (t_gate e) (message_history s) (generate_image_hash md5 img)")
  case True
  then have "gate_phase md5 loads e img s evs = sleep_scan e s (evs @ [CooldownActive])"
    by (simp add: gate_phase_def Let_def)
  then show ?thesis by blast
next
  case False
  obtain allowed s1 where c: "check_rate_limit (t_rate e) s = (allowed, s1)"
    by (cases "check_rate_limit (t_rate e) s")
  obtain res evs' where a: "analyze_message_and_generate_reply loads e = (res, evs')"
    by (cases "analyze_message_and_generate_reply loads e")
  show ?thesis
  proof (cases allowed)
    case na: False
    with False c have
      "gate_phase md5 loads e img s evs = sleep_scan e s1 (evs @ [RateLimitReached])"
      by (simp add: gate_phase_def Let_def)
    then show ?thesis by blast
  next
    case al: True
    show ?thesis
    proof (cases res)
      case (Raises x)
      with False al c a show ?thesis by (simp add: gate_phase_def Let_def)
    next
      case (Returns result)
      with False al c a have
        "gate_phase md5 loads e img s evs
           = reply_phase e (generate_image_hash md5 img) result s1 (evs @ evs')"
        by (simp add: gate_phase_def Let_def)
      then show ?thesis by blast
    qed
  qed
qed

lemma try_block_cases:
  "(\<exists>s' evs'. try_block md5 loads e s = sleep_scan e s' evs')
   \<or> (\<exists>img evs'. try_block md5 loads e s = gate_phase md5 loads e img s evs')
   \<or> (\<exists>x. fst (focus_whatsapp e) = Raises x \<and> fst (try_block md5 loads e s) = Raises x)
   \<or> (\<exists>x. fst (get_chat_image e) = Raises x \<and> fst (try_block md5 loads e s) = Raises x)"
proof -
  obtain rf ef where f: "focus_whatsapp e = (rf, ef)" by (cases "focus_whatsapp e")
  obtain rc ec where c: "get_chat_image e = (rc, ec)" by (cases "get_chat_image e")
  show ?thesis
  proof (cases rf)
    case (Raises x)
    with f show ?thesis by (simp add: try_block_def)
  next
    case (Returns focused)
    show ?thesis
    proof (cases focused)
      case False
      with Returns f have "try_block md5 loads e s = sleep_scan e s (Checking # ef)"
        by (simp add: try_block_def)
      then show ?thesis by blast
    next
      case True
      show ?thesis
      proof (cases rc)
        case (Raises x)
        with True Returns f c show ?thesis by (simp add: try_block_def)
      next
        case rr: (Returns img)
        show ?thesis
        proof (cases img)
          case None
          with rr True Returns f c have
            "try_block md5 loads e s = sleep_scan e s (Checking # ef @ ec)"
            by (simp add: try_block_def)
          then show ?thesis by blast
        next
          case (Some chat_img)
          with rr True Returns f c have
            "try_block md5 loads e s = gate_phase md5 loads e chat_img s (Checking # ef @ ec)"
            by (simp add: try_block_def)
          then show ?thesis by blast
        qed
      qed
    qed
  qed
qed

lemma gate_phase_benign:
  assumes "env_benign e" and "\<And>r. benign (loads r)"
  shows "benign (fst (gate_phase md5 loads e img s evs))"
  using gate_phase_cases [of md5 loads e img s evs]
proof (elim disjE exE conjE)
  fix s' evs' assume "gate_phase md5 loads e img s evs = sleep_scan e s' evs'"
  with sleep_scan_benign [OF assms(1), of s' evs'] show ?thesis by simp
next
  fix h r s' evs' assume "gate_phase md5 loads e img s evs = reply_phase e h r s' evs'"
  with reply_phase_benign [OF assms(1), of h r s' evs'] show ?thesis by simp
next
  fix x assume "fst (analyze_message_and_generate_reply loads e) = Raises x"
    and "fst (gate_phase md5 loads e img s evs) = Raises x"
  with analyze_benign [of e loads, OF assms(1) assms(2)] show ?thesis by (simp add: benign_def)
qed

lemma gate_phase_last:
  assumes "fst (gate_phase md5 loads e img s evs) = Returns u"
  shows "snd (snd (gate_phase md5 loads e img s evs)) \<noteq> []
         \<and> last (snd (snd (gate_phase md5 loads e img s evs))) = Slept SCAN_INTERVAL"
  using gate_phase_cases [of md5 loads e img s evs]
proof (elim disjE exE conjE)
  fix s' evs' assume eq: "gate_phase md5 loads e img s evs = sleep_scan e s' evs'"
  with assms have "fst (sleep_scan e s' evs') = Returns u" by simp
  from sleep_scan_last [OF this] eq show ?thesis by simp
next
  fix h r s' evs' assume eq: "gate_phase md5 loads e img s evs = reply_phase e h r s' evs'"
  with assms have "fst (reply_phase e h r s' evs') = Returns u" by simp
  from reply_phase_last [OF this] eq show ?thesis by simp
next
  fix x assume "fst (gate_phase md5 loads e img s evs) = Raises x"
  with assms show ?thesis by simp
qed

lemma try_block_benign:
  assumes "env_benign e" and "\<And>r. benign (loads r)"
  shows "benign (fst (try_block md5 loads e s))"
  using try_block_cases [of md5 loads e s]
proof (elim disjE exE conjE)
  fix s' evs' assume "try_block md5 loads e s = sleep_scan e s' evs'"
  with sleep_scan_benign [OF assms(1), of s' evs'] show ?thesis by simp
next
  fix img evs' assume "try_block md5 loads e s = gate_phase md5 loads e img s evs'"
  with gate_phase_benign [of e loads md5 img s evs', OF assms(1) assms(2)] show ?thesis by simp
next
  fix x assume "fst (focus_whatsapp e) = Raises x"
  with focus_returns [OF assms(1)] show ?thesis by simp
next
  fix x assume "fst (get_chat_image e) = Raises x"
  with capture_returns [OF assms(1)] show ?thesis by simp
qed

lemma try_block_last:
  assumes "fst (try_block md5 loads e s) = Returns u"
  shows "snd (snd (try_block md5 loads e s)) \<noteq> []
         \<and> last (snd (snd (try_block md5 loads e s))) = Slept SCAN_INTERVAL"
  using try_block_cases [of md5 loads e s]
proof (elim disjE exE conjE)
  fix s' evs' assume eq: "try_block md5 loads e s = sleep_scan e s' evs'"
  with assms have "fst (sleep_scan e s' evs') = Returns u" by simp
  from sleep_scan_last [OF this] eq show ?thesis by simp
next
  fix img evs' assume eq: "try_block md5 loads e s = gate_phase md5 loads e img s evs'"
  with assms have "fst (gate_phase md5 loads e img s evs') = Returns u" by simp
  from gate_phase_last [OF this] eq show ?thesis by simp
next
  fix x assume "fst (try_block md5 loads e s) = Raises x"
  with assms show ?thesis by simp
next
  fix x assume "fst (get_chat_image e) = Raises x" "fst (try_block md5 loads e s) = Raises x"
  with assms show ?thesis by simp
qed

subsection \<open>The console of a phase extends the console it started with\<close>

lemma sleep_scan_prefix: "\<exists>t. snd (snd (sleep_scan e s evs)) = evs @ t"
  by (cases "sleep_body e") (simp_all add: sleep_scan_def)

lemma analyze_head:
  "\<exists>t. snd (analyze_message_and_generate_reply loads e) = OracleInvoked # t"
  by (auto simp: analyze_message_and_generate_reply_def analyze_handlers_def Let_def
      split: outcome.splits exn.splits option.splits json.splits)

lemma reply_phase_prefix: "\<exists>t. snd (snd (reply_phase e h r s evs)) = evs @ t"
proof (cases "truthy_get r ''should_reply'' \<and> truthy_get r ''reply''")
  case False
  then have "reply_phase e h r s evs = sleep_scan e s (evs @ [NoReplyNeeded])"
    unfolding reply_phase_def by (simp only: if_False)
  with sleep_scan_prefix [of e s "evs @ [NoReplyNeeded]"] show ?thesis by auto
next
  case True
  show ?thesis
  proof (cases "map_of r ''message_detected''")
    case None
    with True show ?thesis by (simp add: reply_phase_def)
  next
    case (Some d)
    show ?thesis
    proof (cases "map_of r ''reply''")
      case None
      with True Some show ?thesis by (simp add: reply_phase_def)
    next
      case rp: (Some m)
      obtain res evs' where sr: "send_reply e m = (res, evs')" by (cases "send_reply e m")
      show ?thesis
      proof (cases res)
        case (Raises x)
        with True Some rp sr show ?thesis by (simp add: reply_phase_def)
      next
        case (Returns ok)
        with True Some rp sr have
          "reply_phase e h r s evs
             = sleep_scan e (if ok then bookkeeping h (t_record e) (t_cleanup e) s else s)
                 (evs @ [PreparingReply d] @ evs')"
          by (simp add: reply_phase_def)
        with sleep_scan_prefix [of e "if ok then bookkeeping h (t_record e) (t_cleanup e) s else s"
            "evs @ [PreparingReply d] @ evs'"]
        show ?thesis by auto
      qed
    qed
  qed
qed

lemma gate_phase_open:
  assumes "\<not> cooldown_active (t_gate e) (message_history s) (generate_image_hash md5 img)"
  shows "gate_phase md5 loads e img s evs =
          (case check_rate_limit (t_rate e) s of
             (allowed, s1) \<Rightarrow>
               if \<not> allowed then sleep_scan e s1 (evs @ [RateLimitReached])
               else (case analyze_message_and_generate_reply loads e of
                       (Raises x, evs') \<Rightarrow> (Raises x, s1, evs @ evs')
                     | (Returns result, evs') \<Rightarrow>
                         reply_phase e (generate_image_hash md5 img) result s1 (evs @ evs')))"
  using assms by (simp add: gate_phase_def Let_def)

lemma gate_phase_open_head:
  assumes "\<not> cooldown_active (t_gate e) (message_history s) (generate_image_hash md5 img)"
  shows "\<exists>t. snd (snd (gate_phase md5 loads e img s evs))
           = evs @ (if fst (check_rate_limit (t_rate e) s) then OracleInvoked
                    else RateLimitReached) # t"
proof -
  obtain allowed s1 where c: "check_rate_limit (t_rate e) s = (allowed, s1)"
    by (cases "check_rate_limit (t_rate e) s")
  obtain res evs' where a: "analyze_message_and_generate_reply loads e = (res, evs')"
    by (cases "analyze_message_and_generate_reply loads e")
  with analyze_head [of loads e] obtain t0 where t0: "evs' = OracleInvoked # t0" by auto
  show ?thesis
  proof (cases allowed)
    case False
    with c assms have "gate_phase md5 loads e img s evs
        = sleep_scan e s1 (evs @ [RateLimitReached])"
      by (simp add: gate_phase_open)
    with sleep_scan_prefix [of e s1 "evs @ [RateLimitReached]"] False c show ?thesis by auto
  next
    case True
    show ?thesis
    proof (cases res)
      case (Raises x)
      with True c a t0 assms show ?thesis by (simp add: gate_phase_open)
    next
      case (Returns result)
      with True c a assms have "gate_phase md5 loads e img s evs
          = reply_phase e (generate_image_hash md5 img) result s1 (evs @ evs')"
        by (simp add: gate_phase_open)
      with reply_phase_prefix [of e "generate_image_hash md5 img" result s1 "evs @ evs'"]
        True c t0
      show ?thesis by auto
    qed
  qed
qed

lemma gate_phase_open_not_cooldown_sleep:
  assumes "\<not> cooldown_active (t_gate e) (message_history s) (generate_image_hash md5 img)"
  shows "gate_phase md5 loads e img s evs \<noteq> sleep_scan e s' (evs @ [CooldownActive])"
proof
  assume eq: "gate_phase md5 loads e img s evs = sleep_scan e s' (evs @ [CooldownActive])"
  from gate_phase_open_head [OF assms, of loads evs] obtain t where
    t: "snd (snd (gate_phase md5 loads e img s evs))
           = evs @ (if fst (check_rate_limit (t_rate e) s) then OracleInvoked
                    else RateLimitReached) # t"
    by blast
  from sleep_scan_prefix [of e s' "evs @ [CooldownActive]"] obtain t' where
    "snd (snd (sleep_scan e s' (evs @ [CooldownActive]))) = (evs @ [CooldownActive]) @ t'"
    by blast
  with eq t show False by (auto split: if_splits)
qed

subsection \<open>More on fence stripping\<close>

lemma contains_skip:
  "c0 \<notin> set xs \<Longrightarrow> contains (c0 # rest) (xs @ ys) = contains (c0 # rest) ys"
proof (induction xs)
  case Nil
  then show ?case by simp
next
  case (Cons x xs)
  then have "x \<noteq> c0" and "c0 \<notin> set xs" by auto
  with Cons.IH show ?case by simp
qed

lemma extract_json_plain:
  assumes "CHR 0x60 \<notin> set r"
  shows "extract_json r = Returns r"
proof -
  have "\<not> contains fence_json r"
    using contains_skip [OF assms, of "tl fence_json" "[]"]
    by (simp add: fence_json_def fence_def)
  moreover have "\<not> contains fence r"
    using contains_skip [OF assms, of "tl fence" "[]"] by (simp add: fence_def)
  ultimately show ?thesis by (simp add: extract_json_def)
qed

lemma extract_json_close_fence_only:
  assumes "CHR 0x60 \<notin> set body"
  shows "extract_json (body @ fence) = Returns []"
proof -
  have a: "\<not> contains fence_json (body @ fence)"
    using contains_skip [OF assms, of "tl fence_json" fence]
    by (simp add: fence_json_def fence_def)
  have b: "contains fence (body @ fence)"
    using contains_skip [OF assms, of "tl fence" fence] by (simp add: fence_def)
  have "split_from fence [] (body @ fence) = split_from fence body fence"
    using split_from_skip [OF assms, of "tl fence" "[]" fence] by (simp add: fence_def)
  also have "\<dots> = [body, []]"
    by (simp add: fence_def)
  finally have s1: "str_split fence (body @ fence) = [body, []]"
    by (simp add: str_split_def)
  have s2: "str_split fence [] = [[]]"
    by (simp add: str_split_def)
  from a b s1 s2 show ?thesis by (simp add: extract_json_def index_def strip_def)
qed

section \<open>Bookkeeping after a successful send\<close>

text \<open>
  Claim C9. Immediately after the bookkeeping step of a successful send the ledger
  \<^verbatim>\<open>message_history\<close> is empty: \<^verbatim>\<open>clear()\<close> runs before the pruning loop and removes
  every entry, the one just recorded for the fingerprint included, and the pruning loop that
  follows runs over an empty mapping and changes nothing. The counter keeps its increment.
\<close>

theorem bookkeeping_leaves_history_empty:
  "message_history (clear_history (record_reply img_hash now s)) = []
   \<and> prune_history current_time (clear_history (record_reply img_hash now s))
       = clear_history (record_reply img_hash now s)
   \<and> message_history (bookkeeping img_hash now current_time s) = []
   \<and> count (bookkeeping img_hash now current_time s) = count s + 1"
  by (simp add: bookkeeping_def prune_history_def clear_history_def record_reply_def
      dict_clear_def)

text \<open>
  Claim C2. After a successful send with fingerprint \<open>F\<close> at time \<open>now\<close> the ledger should
  map \<open>F\<close> to \<open>now\<close>, and only entries older than 24 hours should be pruned. The code does
  not do this: in the first end-to-end scenario (empty ledger, count 0, fingerprint
  \<^verbatim>\<open>abc123\<close>, one successful send at time 1000) the pass ends with count 1 but with an
  empty ledger, and a ledger entry ten seconds old is removed as well.
\<close>

theorem bookkeeping_loses_fresh_entries:
  "loop_iteration scenario_md5 scenario_loads (scenario_env 1000) (initial_state 0)
     = (Continue, \<lparr>message_history = [], count = 1, reset_time = 0\<rparr>,
        [Checking, OracleInvoked, AIDetected (JStr ''good morning''), AIShouldReply (JBool True),
         PreparingReply (JStr ''good morning''), TypingReply (JStr ''morning!''),
         Sent (JStr ''morning!''), Slept 20])
   \<and> map_of (message_history
         (bookkeeping ''abc123'' 1000 1000 (initial_state 0))) ''abc123'' = None
   \<and> message_history
         (bookkeeping ''abc123'' 1000 1000
            \<lparr>message_history = [(''earlier'', 990)], count = 1, reset_time = 0\<rparr>) = []"
  by (simp add: pass_defs scenario_defs)

section \<open>The cooldown gate\<close>

text \<open>
  Claim C7. For a ledger that holds fingerprint \<open>F\<close> with last reply time \<open>T\<close>, the gate
  check at time \<open>T + d\<close> suppresses, that is, prints the cooldown notice and goes to sleep
  without any further step, if and only if \<open>d < REPLY_COOLDOWN\<close>. At \<open>d = REPLY_COOLDOWN\<close>
  exactly, and beyond, it does not suppress: the pass goes on to the rate-limit check, and
  from there either stops at the rate limit or calls the oracle and acts on its decision.
\<close>

theorem cooldown_gate_boundary:
  "map_of (message_history s) (generate_image_hash md5 img) = Some T \<Longrightarrow> t_gate e = T + d \<Longrightarrow>
   cooldown_active (t_gate e) (message_history s) (generate_image_hash md5 img)
     = (d < REPLY_COOLDOWN)
   \<and> (d < REPLY_COOLDOWN \<longrightarrow>
        gate_phase md5 loads e img s evs = sleep_scan e s (evs @ [CooldownActive]))
   \<and> (d = REPLY_COOLDOWN \<longrightarrow>
        \<not> cooldown_active (t_gate e) (message_history s) (generate_image_hash md5 img))
   \<and> (\<not> d < REPLY_COOLDOWN \<longrightarrow> CooldownActive \<notin> set evs \<longrightarrow>
        CooldownActive \<notin> set (snd (snd (gate_phase md5 loads e img s evs))))
   \<and> (gate_phase md5 loads e img s evs = sleep_scan e s (evs @ [CooldownActive]))
        = (d < REPLY_COOLDOWN)
   \<and> (d < REPLY_COOLDOWN \<longrightarrow> OracleInvoked \<notin> set evs \<longrightarrow>
        OracleInvoked \<notin> set (snd (snd (gate_phase md5 loads e img s evs))))
   \<and> (\<not> d < REPLY_COOLDOWN \<longrightarrow>
        gate_phase md5 loads e img s evs =
          (case check_rate_limit (t_rate e) s of
             (allowed, s1) \<Rightarrow>
               if \<not> allowed then sleep_scan e s1 (evs @ [RateLimitReached])
               else (case analyze_message_and_generate_reply loads e of
                       (Raises x, evs') \<Rightarrow> (Raises x, s1, evs @ evs')
                     | (Returns result, evs') \<Rightarrow>
                         reply_phase e (generate_image_hash md5 img) result s1 (evs @ evs'))))
   \<and> (\<not> d < REPLY_COOLDOWN \<and> fst (check_rate_limit (t_rate e) s) \<longrightarrow>
        OracleInvoked \<in> set (snd (snd (gate_phase md5 loads e img s evs))))
   \<and> (\<not> d < REPLY_COOLDOWN \<and> \<not> fst (check_rate_limit (t_rate e) s) \<longrightarrow>
        RateLimitReached \<in> set (snd (snd (gate_phase md5 loads e img s evs))))"
proof -
  assume a: "map_of (message_history s) (generate_image_hash md5 img) = Some T"
    and b: "t_gate e = T + d"
  have act: "cooldown_active (t_gate e) (message_history s) (generate_image_hash md5 img)
      = (d < REPLY_COOLDOWN)"
    using a b by (simp add: cooldown_active_def dict_get_def)
  have sup: "gate_phase md5 loads e img s evs = sleep_scan e s (evs @ [CooldownActive])"
    if "d < REPLY_COOLDOWN"
    using that act by (simp add: gate_phase_def)
  have nosup: "CooldownActive \<notin> set (snd (snd (gate_phase md5 loads e img s evs)))"
    if "\<not> d < REPLY_COOLDOWN" and "CooldownActive \<notin> set evs"
    using that act send_no_cooldown analyze_no_cooldown
    by (intro gate_phase_notin) simp_all
  have neq: "gate_phase md5 loads e img s evs \<noteq> sleep_scan e s (evs @ [CooldownActive])"
    if "\<not> d < REPLY_COOLDOWN"
    using that act by (intro gate_phase_open_not_cooldown_sleep) simp
  from sup neq have iff: "(gate_phase md5 loads e img s evs
      = sleep_scan e s (evs @ [CooldownActive])) = (d < REPLY_COOLDOWN)"
    by blast
  have quiet: "OracleInvoked \<notin> set (snd (snd (gate_phase md5 loads e img s evs)))"
    if "d < REPLY_COOLDOWN" and "OracleInvoked \<notin> set evs"
    using that sup by (simp add: sleep_scan_notin)
  have opened: "gate_phase md5 loads e img s evs =
          (case check_rate_limit (t_rate e) s of
             (allowed, s1) \<Rightarrow>
               if \<not> allowed then sleep_scan e s1 (evs @ [RateLimitReached])
               else (case analyze_message_and_generate_reply loads e of
                       (Raises x, evs') \<Rightarrow> (Raises x, s1, evs @ evs')
                     | (Returns result, evs') \<Rightarrow>
                         reply_phase e (generate_image_hash md5 img) result s1 (evs @ evs')))"
    if "\<not> d < REPLY_COOLDOWN"
    using that act by (intro gate_phase_open) simp
  have head: "\<exists>t. snd (snd (gate_phase md5 loads e img s evs))
           = evs @ (if fst (check_rate_limit (t_rate e) s) then OracleInvoked
                    else RateLimitReached) # t"
    if "\<not> d < REPLY_COOLDOWN"
    using that act by (intro gate_phase_open_head) simp
  have called: "OracleInvoked \<in> set (snd (snd (gate_phase md5 loads e img s evs)))"
    if "\<not> d < REPLY_COOLDOWN" and "fst (check_rate_limit (t_rate e) s)"
    using head [OF that(1)] that(2) by auto
  have limited: "RateLimitReached \<in> set (snd (snd (gate_phase md5 loads e img s evs)))"
    if "\<not> d < REPLY_COOLDOWN" and "\<not> fst (check_rate_limit (t_rate e) s)"
    using head [OF that(1)] that(2) by auto
  from act sup nosup iff quiet opened called limited show ?thesis by simp
qed

theorem cooldown_gate_boundary_witness:
  "cooldown_active 1060 [(''abc123'', 1000)] ''abc123''
   \<and> gate_phase scenario_md5 scenario_loads (scenario_env 1060) ''pixels''
        \<lparr>message_history = [(''abc123'', 1000)], count = 0, reset_time = 0\<rparr> [Checking]
       = (Returns (), \<lparr>message_history = [(''abc123'', 1000)], count = 0, reset_time = 0\<rparr>,
          [Checking, CooldownActive, Slept 20])
   \<and> \<not> cooldown_active 1300 [(''abc123'', 1000)] ''abc123''
   \<and> gate_phase scenario_md5 scenario_loads (scenario_env 1300) ''pixels''
        \<lparr>message_history = [(''abc123'', 1000)], count = 0, reset_time = 0\<rparr> [Checking]
       = (Returns (), \<lparr>message_history = [], count = 1, reset_time = 0\<rparr>,
          [Checking, OracleInvoked, AIDetected (JStr ''good morning''), AIShouldReply (JBool True),
           PreparingReply (JStr ''good morning''), TypingReply (JStr ''morning!''),
           Sent (JStr ''morning!''), Slept 20])
   \<and> gate_phase scenario_md5 scenario_loads (scenario_env 1300) ''pixels''
        \<lparr>message_history = [(''abc123'', 1000)], count = 10, reset_time = 0\<rparr> [Checking]
       = (Returns (), \<lparr>message_history = [(''abc123'', 1000)], count = 10, reset_time = 0\<rparr>,
          [Checking, RateLimitReached, Slept 20])"
  using cooldown_gate_boundary [of "\<lparr>message_history = [(''abc123'', 1000)], count = 0, reset_time = 0\<rparr>"
      scenario_md5 "''pixels''" 1000 "scenario_env 1060" 60 scenario_loads "[Checking]"]
    cooldown_gate_boundary [of "\<lparr>message_history = [(''abc123'', 1000)], count = 0, reset_time = 0\<rparr>"
      scenario_md5 "''pixels''" 1000 "scenario_env 1300" 300 scenario_loads "[Checking]"]
    cooldown_gate_boundary [of "\<lparr>message_history = [(''abc123'', 1000)], count = 10, reset_time = 0\<rparr>"
      scenario_md5 "''pixels''" 1000 "scenario_env 1300" 300 scenario_loads "[Checking]"]
  by (simp add: pass_defs scenario_defs)

text \<open>
  Claim C1. A reply for a fingerprint should be sent at most once per cooldown interval:
  after a successful send at time \<open>T\<close>, a pass that captures the same fingerprint at
  \<open>T + d\<close> with \<open>d < REPLY_COOLDOWN\<close> should stop at the gate without calling the oracle.
  The code does not do this: the bookkeeping of the first send empties the ledger, so in the
  second end-to-end scenario (the same fingerprint 60 seconds later) the gate finds no entry,
  the oracle is called again and a second reply is sent.
\<close>

theorem reply_repeated_within_cooldown:
  "run scenario_md5 scenario_loads [scenario_env 1000, scenario_env 1060] (initial_state 0)
     = (Continue, \<lparr>message_history = [], count = 2, reset_time = 0\<rparr>,
        [Checking, OracleInvoked, AIDetected (JStr ''good morning''), AIShouldReply (JBool True),
         PreparingReply (JStr ''good morning''), TypingReply (JStr ''morning!''),
         Sent (JStr ''morning!''), Slept 20,
         Checking, OracleInvoked, AIDetected (JStr ''good morning''), AIShouldReply (JBool True),
         PreparingReply (JStr ''good morning''), TypingReply (JStr ''morning!''),
         Sent (JStr ''morning!''), Slept 20])"
  by (simp add: pass_defs scenario_defs)

section \<open>The rate limiter\<close>

text \<open>
  Claim C10, as stated: the reset boundary is strict, and the check, doing the reset itself,
  changes the counter state even on a call that returns false. The last part fails: no call
  that returns false changes the state.
\<close>

theorem rate_check_false_mutates_counterexample:
  "\<not> (\<exists>current_time s. \<not> fst (check_rate_limit current_time s)
         \<and> snd (check_rate_limit current_time s) \<noteq> s)"
  by (auto simp add: check_rate_limit_def MAX_REPLIES_PER_HOUR_def Let_def split: if_splits)

text \<open>
  Claim C10, amended. The reset boundary is strict: a call exactly 3600 seconds after
  \<^verbatim>\<open>reset_time\<close> resets neither the count nor the window start, and a call within the window
  only compares the count with the cap. A call more than 3600 seconds after \<^verbatim>\<open>reset_time\<close>
  sets the count to 0 and the window start to the current time inside the check itself, and
  that call returns true. A call that returns false leaves the counter state unchanged.
\<close>

theorem rate_window_reset_strict:
  "(current_time - reset_time s = 3600 \<longrightarrow> snd (check_rate_limit current_time s) = s)
   \<and> (current_time - reset_time s \<le> 3600 \<longrightarrow>
        check_rate_limit current_time s = (count s < MAX_REPLIES_PER_HOUR, s))
   \<and> (current_time - reset_time s > 3600 \<longrightarrow>
        check_rate_limit current_time s = (True, s\<lparr>count := 0, reset_time := current_time\<rparr>))
   \<and> (\<not> fst (check_rate_limit current_time s) \<longrightarrow> snd (check_rate_limit current_time s) = s)"
  by (auto simp add: check_rate_limit_def MAX_REPLIES_PER_HOUR_def Let_def split: if_splits)

theorem rate_window_reset_strict_witness:
  "check_rate_limit 3600 \<lparr>message_history = [], count = 10, reset_time = 0\<rparr>
     = (False, \<lparr>message_history = [], count = 10, reset_time = 0\<rparr>)
   \<and> check_rate_limit 3601 \<lparr>message_history = [], count = 10, reset_time = 0\<rparr>
     = (True, \<lparr>message_history = [], count = 0, reset_time = 3601\<rparr>)"
  using rate_window_reset_strict [of 3600 "\<lparr>message_history = [], count = 10, reset_time = 0\<rparr>"]
    rate_window_reset_strict [of 3601 "\<lparr>message_history = [], count = 10, reset_time = 0\<rparr>"]
  by (simp add: MAX_REPLIES_PER_HOUR_def)

text \<open>
  Claim C3. The count never exceeds the cap \<^verbatim>\<open>MAX_REPLIES_PER_HOUR = 10\<close>: from the
  start-up state, and from any state within the cap, no sequence of passes takes it above
  10. Once the count has reached the cap, a pass inside the same window (no more than 3600
  seconds after the window start) leaves the state as it is and never calls the oracle.
  Once more than 3600 seconds have passed since the window start the check sets the count
  to 0, starts a new window and allows the send.
\<close>

theorem rate_cap_enforced:
  "count (fst (snd (run md5 loads es (initial_state t0)))) \<le> MAX_REPLIES_PER_HOUR
   \<and> (count s \<le> MAX_REPLIES_PER_HOUR \<longrightarrow>
        count (fst (snd (run md5 loads es s))) \<le> MAX_REPLIES_PER_HOUR)
   \<and> (count s = MAX_REPLIES_PER_HOUR \<and> t_rate e - reset_time s \<le> 3600 \<longrightarrow>
        fst (snd (loop_iteration md5 loads e s)) = s
        \<and> OracleInvoked \<notin> set (snd (snd (loop_iteration md5 loads e s))))
   \<and> (t_rate e - reset_time s > 3600 \<longrightarrow>
        check_rate_limit (t_rate e) s = (True, s\<lparr>count := 0, reset_time := t_rate e\<rparr>))"
proof -
  have "count (initial_state t0) \<le> MAX_REPLIES_PER_HOUR"
    by (simp add: initial_state_def MAX_REPLIES_PER_HOUR_def)
  then have a: "count (fst (snd (run md5 loads es (initial_state t0)))) \<le> MAX_REPLIES_PER_HOUR"
    by (rule run_count)
  have b: "fst (snd (loop_iteration md5 loads e s)) = s
        \<and> OracleInvoked \<notin> set (snd (snd (loop_iteration md5 loads e s)))"
    if "count s = MAX_REPLIES_PER_HOUR" and "t_rate e - reset_time s \<le> 3600"
    using that by (intro loop_iteration_rate_suppressed) simp_all
  have c: "check_rate_limit (t_rate e) s = (True, s\<lparr>count := 0, reset_time := t_rate e\<rparr>)"
    if "t_rate e - reset_time s > 3600"
    using that by (simp add: check_rate_limit_def MAX_REPLIES_PER_HOUR_def)
  from a b c run_count [of s md5 loads es] show ?thesis by blast
qed

theorem rate_cap_enforced_witness:
  "(case run scenario_md5 scenario_loads
       (map scenario_env [1000, 1100, 1200, 1300, 1400, 1500, 1600, 1700, 1800, 1900])
       (initial_state 0) of (c, s, evs) \<Rightarrow> (c, s))
     = (Continue, \<lparr>message_history = [], count = 10, reset_time = 0\<rparr>)
   \<and> fst (snd (loop_iteration scenario_md5 scenario_loads (scenario_env 2000)
        \<lparr>message_history = [], count = 10, reset_time = 0\<rparr>))
       = \<lparr>message_history = [], count = 10, reset_time = 0\<rparr>
   \<and> OracleInvoked \<notin> set (snd (snd (loop_iteration scenario_md5 scenario_loads
        (scenario_env 2000) \<lparr>message_history = [], count = 10, reset_time = 0\<rparr>)))
   \<and> check_rate_limit 3601 \<lparr>message_history = [], count = 10, reset_time = 0\<rparr>
       = (True, \<lparr>message_history = [], count = 0, reset_time = 3601\<rparr>)
   \<and> count (fst (snd (run scenario_md5 scenario_loads
        (map scenario_env [1000, 1100, 1200, 1300, 1400, 1500, 1600, 1700, 1800, 1900, 2000])
        (initial_state 0)))) \<le> 10"
  using rate_cap_enforced [of scenario_md5 scenario_loads
      "map scenario_env [1000, 1100, 1200, 1300, 1400, 1500, 1600, 1700, 1800, 1900, 2000]" 0
      "\<lparr>message_history = [], count = 10, reset_time = 0\<rparr>" "scenario_env 2000"]
    rate_cap_enforced [of scenario_md5 scenario_loads "[]" 0
      "\<lparr>message_history = [], count = 10, reset_time = 0\<rparr>" "scenario_env 3601"]
  by (simp add: pass_defs scenario_defs)

text \<open>
  Claim C6. When a pass is stopped by the rate limiter (the count is at or over the cap and
  the window has not expired), the oracle is never called in that pass and the ledger, like
  the rest of the state, is left as it was, also for a fingerprint never seen before. The
  cooldown is consulted first: a pass stopped by the cooldown goes to sleep without running
  the rate-limit check at all, and only a pass that the cooldown lets through reaches it.
\<close>

theorem rate_suppression_frame:
  "(count s \<ge> MAX_REPLIES_PER_HOUR \<and> t_rate e - reset_time s \<le> 3600 \<longrightarrow>
      fst (snd (loop_iteration md5 loads e s)) = s
      \<and> message_history (fst (snd (loop_iteration md5 loads e s))) = message_history s
      \<and> OracleInvoked \<notin> set (snd (snd (loop_iteration md5 loads e s))))
   \<and> (count s \<ge> MAX_REPLIES_PER_HOUR \<and> t_rate e - reset_time s \<le> 3600
       \<and> \<not> cooldown_active (t_gate e) (message_history s) (generate_image_hash md5 img) \<longrightarrow>
      gate_phase md5 loads e img s evs = sleep_scan e s (evs @ [RateLimitReached]))
   \<and> (cooldown_active (t_gate e) (message_history s) (generate_image_hash md5 img) \<longrightarrow>
      gate_phase md5 loads e img s evs = sleep_scan e s (evs @ [CooldownActive]))"
proof -
  have a: "fst (snd (loop_iteration md5 loads e s)) = s
      \<and> OracleInvoked \<notin> set (snd (snd (loop_iteration md5 loads e s)))"
    if "count s \<ge> MAX_REPLIES_PER_HOUR" and "t_rate e - reset_time s \<le> 3600"
    using that by (rule loop_iteration_rate_suppressed)
  have b: "gate_phase md5 loads e img s evs = sleep_scan e s (evs @ [RateLimitReached])"
    if "count s \<ge> MAX_REPLIES_PER_HOUR" and "t_rate e - reset_time s \<le> 3600"
      and "\<not> cooldown_active (t_gate e) (message_history s) (generate_image_hash md5 img)"
  proof -
    from that have "check_rate_limit (t_rate e) s = (False, s)"
      by (simp add: check_rate_limit_def)
    with that(3) show ?thesis by (simp add: gate_phase_def Let_def)
  qed
  have c: "gate_phase md5 loads e img s evs = sleep_scan e s (evs @ [CooldownActive])"
    if "cooldown_active (t_gate e) (message_history s) (generate_image_hash md5 img)"
    using that by (simp add: gate_phase_def Let_def)
  from a b c show ?thesis by simp
qed

theorem rate_suppression_frame_witness:
  "loop_iteration scenario_md5 scenario_loads (scenario_env 2000)
      \<lparr>message_history = [], count = 10, reset_time = 0\<rparr>
     = (Continue, \<lparr>message_history = [], count = 10, reset_time = 0\<rparr>,
        [Checking, RateLimitReached, Slept 20])
   \<and> gate_phase scenario_md5 scenario_loads (scenario_env 2000) ''pixels''
      \<lparr>message_history = [], count = 10, reset_time = 0\<rparr> [Checking]
     = (Returns (), \<lparr>message_history = [], count = 10, reset_time = 0\<rparr>,
        [Checking, RateLimitReached, Slept 20])
   \<and> gate_phase scenario_md5 scenario_loads (scenario_env 2000) ''pixels''
      \<lparr>message_history = [(''abc123'', 1900)], count = 10, reset_time = 0\<rparr> [Checking]
     = (Returns (), \<lparr>message_history = [(''abc123'', 1900)], count = 10, reset_time = 0\<rparr>,
        [Checking, CooldownActive, Slept 20])"
  using rate_suppression_frame [of "\<lparr>message_history = [], count = 10, reset_time = 0\<rparr>"
      "scenario_env 2000" scenario_md5 scenario_loads "''pixels''" "[Checking]"]
    rate_suppression_frame [of
      "\<lparr>message_history = [(''abc123'', 1900)], count = 10, reset_time = 0\<rparr>"
      "scenario_env 2000" scenario_md5 scenario_loads "''pixels''" "[Checking]"]
  by (simp add: pass_defs scenario_defs)

section \<open>Failed injection\<close>

text \<open>
  Claim C4. If \<^verbatim>\<open>send_reply\<close> returns false, the pass does no bookkeeping: the ledger and
  the counter are exactly what they were before the injection attempt, so the same
  fingerprint passes the cooldown gate afterwards exactly when it did before. Over the
  whole pass the ledger is unchanged and the counter is as the rate-limit check left it.
\<close>

theorem failed_send_no_bookkeeping:
  "map_of result ''reply'' = Some reply \<Longrightarrow> fst (send_reply e reply) = Returns False \<Longrightarrow>
   fst (snd (reply_phase e img_hash result s evs)) = s
   \<and> cooldown_active t (message_history (fst (snd (reply_phase e img_hash result s evs)))) img_hash
       = cooldown_active t (message_history s) img_hash
   \<and> message_history (fst (snd (loop_iteration md5 loads e s0))) = message_history s0
   \<and> (fst (snd (loop_iteration md5 loads e s0)) = s0
       \<or> fst (snd (loop_iteration md5 loads e s0)) = snd (check_rate_limit (t_rate e) s0))"
proof -
  assume r: "map_of result ''reply'' = Some reply"
    and f: "fst (send_reply e reply) = Returns False"
  have indep: "fst (send_reply e m) = fst (send_reply e reply)" for m
    by (simp add: send_reply_def except_Exception_def
        split: prod.splits outcome.splits)
  with f have never: "\<not> (\<exists>m. fst (send_reply e m) = Returns True)" by simp
  with reply_phase_state [of e img_hash result s evs]
  have a: "fst (snd (reply_phase e img_hash result s evs)) = s" by blast
  from never try_block_state [of md5 loads e s0]
  have b: "fst (snd (loop_iteration md5 loads e s0)) = s0
       \<or> fst (snd (loop_iteration md5 loads e s0)) = snd (check_rate_limit (t_rate e) s0)"
    by (auto simp: loop_iteration_state)
  have "message_history (snd (check_rate_limit (t_rate e) s0)) = message_history s0"
    by (simp add: check_rate_limit_def Let_def)
  with b have c: "message_history (fst (snd (loop_iteration md5 loads e s0))) = message_history s0"
    by auto
  from a b c show ?thesis by simp
qed

theorem failed_send_no_bookkeeping_witness:
  "fst (send_reply ((scenario_env 2000)\<lparr>click_windows := Returns False\<rparr>) (JStr ''morning!''))
     = Returns False
   \<and> loop_iteration scenario_md5 scenario_loads
        ((scenario_env 2000)\<lparr>click_windows := Returns False\<rparr>)
        \<lparr>message_history = [(''other'', 1900)], count = 3, reset_time = 0\<rparr>
     = (Continue, \<lparr>message_history = [(''other'', 1900)], count = 3, reset_time = 0\<rparr>,
        [Checking, OracleInvoked, AIDetected (JStr ''good morning''), AIShouldReply (JBool True),
         PreparingReply (JStr ''good morning''), FocusInputFailed, Slept 20])"
  using failed_send_no_bookkeeping [of
      "[(''should_reply'', JBool True), (''message_detected'', JStr ''good morning''),
        (''reply'', JStr ''morning!'')]" "JStr ''morning!''"
      "(scenario_env 2000)\<lparr>click_windows := Returns False\<rparr>" "''abc123''"
      "\<lparr>message_history = [(''other'', 1900)], count = 3, reset_time = 0\<rparr>" "[]" 2000
      scenario_md5 scenario_loads
      "\<lparr>message_history = [(''other'', 1900)], count = 3, reset_time = 0\<rparr>"]
  by (simp add: pass_defs scenario_defs)

section \<open>Malformed oracle responses\<close>

text \<open>
  Claim C5, as stated: every response that is not valid JSON after the stripping of code
  fences, JSON inside unbalanced fences being named as such a response, gives the decision
  with \<^verbatim>\<open>should_reply\<close> false. This fails for JSON behind an opening fence that is never
  closed: the response itself is not JSON, but the stripping removes the fence, the JSON is
  parsed, and the decision to reply that it carries is returned and acted on.
\<close>

theorem unbalanced_fence_counterexample:
  "scenario_json_loads (fence_json @ scenario_json) = Raises (JSONDecodeError ''Expecting value'')
   \<and> analyze_message_and_generate_reply scenario_json_loads
        ((scenario_env 2000)\<lparr>generate_content := Returns (fence_json @ scenario_json)\<rparr>)
     = (Returns scenario_decision,
        [OracleInvoked, AIDetected (JStr ''good morning''), AIShouldReply (JBool True)])
   \<and> truthy_get scenario_decision ''should_reply''
   \<and> loop_iteration scenario_md5 scenario_json_loads
        ((scenario_env 2000)\<lparr>generate_content := Returns (fence_json @ scenario_json)\<rparr>)
        (initial_state 0)
     = (Continue, \<lparr>message_history = [], count = 1, reset_time = 0\<rparr>,
        [Checking, OracleInvoked, AIDetected (JStr ''good morning''), AIShouldReply (JBool True),
         PreparingReply (JStr ''good morning''), TypingReply (JStr ''morning!''),
         Sent (JStr ''morning!''), Slept 20])"
  by (simp add: pass_defs scenario_defs scenario_json_loads_def scenario_json_def quoted_def
      scenario_decision_def str_split_def index_def)

text \<open>
  Claim C5, amended. Whatever text the oracle returns, stripping the code fences yields a
  string and raises nothing. When \<^verbatim>\<open>json.loads\<close> rejects that string with
  \<^verbatim>\<open>JSONDecodeError\<close>, the function returns the decision with \<^verbatim>\<open>should_reply\<close> false and
  empty detected message and reply, and lets no exception out to the loop, which then finds
  nothing to reply to and goes to sleep. The stripping leaves a text without backquotes as
  it is, reduces a response wrapped in a \<^verbatim>\<open>json\<close> code fence to the stripped text between
  the fences, reduces a text followed by a closing fence that was never opened to the empty
  string, and reduces a text behind an opening \<^verbatim>\<open>json\<close> fence that is never closed to that
  text, stripped. When \<^verbatim>\<open>json.loads\<close> accepts the string left by the stripping as an
  object, that object is the decision returned, whatever it says.
\<close>

theorem malformed_response_no_reply:
  "generate_content e = Returns response \<Longrightarrow>
   (\<exists>r. extract_json (strip response) = Returns r
      \<and> (\<forall>m. loads r = Raises (JSONDecodeError m) \<longrightarrow>
            analyze_message_and_generate_reply loads e
              = (Returns no_reply, [OracleInvoked, JsonParsingError m, RawResponse r]))
      \<and> (\<forall>kv. loads r = Returns (JObj kv) \<longrightarrow>
            analyze_message_and_generate_reply loads e
              = (Returns kv,
                 [OracleInvoked, AIDetected (dict_get kv ''message_detected'' (JStr ''N/A'')),
                  AIShouldReply (dict_get kv ''should_reply'' (JBool False))])))
   \<and> \<not> truthy_get no_reply ''should_reply''
   \<and> map_of no_reply ''message_detected'' = Some (JStr [])
   \<and> map_of no_reply ''reply'' = Some (JStr [])
   \<and> reply_phase e img_hash no_reply s evs = sleep_scan e s (evs @ [NoReplyNeeded])
   \<and> (CHR 0x60 \<notin> set body \<longrightarrow> extract_json body = Returns body)
   \<and> (CHR 0x60 \<notin> set body \<longrightarrow>
        extract_json (fence_json @ body @ fence) = Returns (strip body))
   \<and> (CHR 0x60 \<notin> set body \<longrightarrow> extract_json (body @ fence) = Returns [])
   \<and> (CHR 0x60 \<notin> set body \<longrightarrow> extract_json (fence_json @ body) = Returns (strip body))"
proof -
  assume g: "generate_content e = Returns response"
  from extract_json_returns obtain r where r: "extract_json (strip response) = Returns r"
    by blast
  have bad: "analyze_message_and_generate_reply loads e
      = (Returns no_reply, [OracleInvoked, JsonParsingError m, RawResponse r])"
    if "loads r = Raises (JSONDecodeError m)" for m
    using g r that
    by (simp add: analyze_message_and_generate_reply_def analyze_handlers_def)
  have good: "analyze_message_and_generate_reply loads e
      = (Returns kv,
         [OracleInvoked, AIDetected (dict_get kv ''message_detected'' (JStr ''N/A'')),
          AIShouldReply (dict_get kv ''should_reply'' (JBool False))])"
    if "loads r = Returns (JObj kv)" for kv
    using g r that by (simp add: analyze_message_and_generate_reply_def)
  from r bad good have a: "\<exists>r. extract_json (strip response) = Returns r
      \<and> (\<forall>m. loads r = Raises (JSONDecodeError m) \<longrightarrow>
            analyze_message_and_generate_reply loads e
              = (Returns no_reply, [OracleInvoked, JsonParsingError m, RawResponse r]))
      \<and> (\<forall>kv. loads r = Returns (JObj kv) \<longrightarrow>
            analyze_message_and_generate_reply loads e
              = (Returns kv,
                 [OracleInvoked, AIDetected (dict_get kv ''message_detected'' (JStr ''N/A'')),
                  AIShouldReply (dict_get kv ''should_reply'' (JBool False))]))"
    by blast
  have b: "\<not> truthy_get no_reply ''should_reply''"
    and c: "map_of no_reply ''message_detected'' = Some (JStr [])"
    and d: "map_of no_reply ''reply'' = Some (JStr [])"
    by (simp_all add: no_reply_def truthy_get_def)
  from b have f: "reply_phase e img_hash no_reply s evs = sleep_scan e s (evs @ [NoReplyNeeded])"
    by (simp add: reply_phase_def)
  from a b c d f extract_json_plain [of body] extract_json_fenced [of body]
    extract_json_close_fence_only [of body] extract_json_open_fence_only [of body]
  show ?thesis by blast
qed

theorem malformed_response_no_reply_witness:
  "analyze_message_and_generate_reply scenario_json_loads
      ((scenario_env 2000)\<lparr>generate_content := Returns '' Sorry, no JSON today. ''\<rparr>)
     = (Returns no_reply,
        [OracleInvoked, JsonParsingError ''Expecting value'',
         RawResponse ''Sorry, no JSON today.''])
   \<and> analyze_message_and_generate_reply scenario_json_loads
      ((scenario_env 2000)\<lparr>generate_content := Returns (scenario_json @ fence)\<rparr>)
     = (Returns no_reply,
        [OracleInvoked, JsonParsingError ''Expecting value'', RawResponse []])
   \<and> analyze_message_and_generate_reply scenario_json_loads
      ((scenario_env 2000)\<lparr>generate_content
         := Returns (fence_json @ '' '' @ scenario_json @ '' '' @ fence)\<rparr>)
     = (Returns scenario_decision,
        [OracleInvoked, AIDetected (JStr ''good morning''), AIShouldReply (JBool True)])
   \<and> extract_json (fence_json @ '' {} '' @ fence) = Returns ''{}''
   \<and> extract_json (''{}'' @ fence) = Returns []
   \<and> extract_json (fence_json @ '' {} '') = Returns ''{}''
   \<and> extract_json ''Sorry, no JSON today.'' = Returns ''Sorry, no JSON today.''"
  using malformed_response_no_reply [of
      "(scenario_env 2000)\<lparr>generate_content := Returns '' Sorry, no JSON today. ''\<rparr>"
      "'' Sorry, no JSON today. ''" scenario_json_loads
      "''abc123''" "initial_state 0" "[]" "'' {} ''"]
    malformed_response_no_reply [of
      "(scenario_env 2000)\<lparr>generate_content := Returns (scenario_json @ fence)\<rparr>"
      "scenario_json @ fence" scenario_json_loads
      "''abc123''" "initial_state 0" "[]" "''{}''"]
    malformed_response_no_reply [of
      "(scenario_env 2000)\<lparr>generate_content
         := Returns (fence_json @ '' '' @ scenario_json @ '' '' @ fence)\<rparr>"
      "fence_json @ '' '' @ scenario_json @ '' '' @ fence" scenario_json_loads
      "''abc123''" "initial_state 0" "[]" "''Sorry, no JSON today.''"]
  by (simp add: pass_defs scenario_defs scenario_json_loads_def scenario_json_def quoted_def
      scenario_decision_def str_split_def index_def no_reply_def)

section \<open>Exceptions and leaving the loop\<close>

text \<open>
  Claim C8, as stated: no exception raised in the body of a pass ends the loop, and the only
  exit is the interrupt signal, checked between passes. Both parts fail. An interrupt raised
  while the oracle call is running ends the loop in the middle of that pass, with no
  sleep and nothing of the rest of the pass; and an exception outside the class
  \<^verbatim>\<open>Exception\<close>, such as \<^verbatim>\<open>SystemExit\<close>, raised in the body is caught by no clause and
  leaves the loop.
\<close>

theorem interrupt_between_passes_counterexample:
  "loop_iteration scenario_md5 scenario_loads
      ((scenario_env 2000)\<lparr>generate_content := Raises KeyboardInterrupt\<rparr>) (initial_state 0)
     = (Break, initial_state 0, [Checking, OracleInvoked, BotStopped])
   \<and> loop_iteration scenario_md5 scenario_loads
      ((scenario_env 2000)\<lparr>generate_content := Raises (BaseException ''SystemExit'')\<rparr>)
      (initial_state 0)
     = (Propagate (BaseException ''SystemExit''), initial_state 0, [Checking, OracleInvoked])"
  by (simp add: pass_defs scenario_defs)

text \<open>
  Claim C8, amended. Every exception of a class under \<^verbatim>\<open>Exception\<close> raised by a call in
  the body of a pass is caught. Raised in a helper (window focus, capture, oracle, click,
  send), it is caught by the helper's own handler, which prints the helper's marker with the
  message and returns the helper's soft-failure value. The one path apart is a
  \<^verbatim>\<open>JSONDecodeError\<close> raised by the oracle call itself: its handler prints its marker and
  then fails on the unbound variable \<^verbatim>\<open>result\<close>, and this failure, like a missing key in
  the decision or an exception of the sleep, reaches the \<^verbatim>\<open>except Exception\<close> clause of the
  loop, which prints the loop's marker with the message and applies the standard sleep. So
  when every call of the body returns or raises such an exception, and the sleep of the
  loop's handler returns, the pass ends with the standard sleep and the next pass begins.
  No helper catches \<^verbatim>\<open>KeyboardInterrupt\<close>: raised by any call of the body (window lookup,
  activation, capture, oracle call, parsing, click, typing, sleep) it leaves the
  \<^verbatim>\<open>try\<close> block at that point, with the state and the console as they are then, and the
  loop prints the stop notice and exits by \<^verbatim>\<open>break\<close> without the rest of the pass and
  without the sleep. The loop exits by \<^verbatim>\<open>break\<close> only in this way. An exception of any
  other class outside \<^verbatim>\<open>Exception\<close> passes the helpers in the same way and leaves the loop
  uncaught, and so does any exception raised by the sleep of the loop's handler.
\<close>

theorem loop_survives_exceptions:
  "(env_benign e \<and> (\<forall>r. benign (loads r)) \<and> sleep_handler e = Returns () \<longrightarrow>
      fst (loop_iteration md5_hexdigest loads e s) = Continue
      \<and> snd (snd (loop_iteration md5_hexdigest loads e s)) \<noteq> []
      \<and> last (snd (snd (loop_iteration md5_hexdigest loads e s))) = Slept SCAN_INTERVAL
      \<and> run md5_hexdigest loads (e # es) s
          = (case run md5_hexdigest loads es (fst (snd (loop_iteration md5_hexdigest loads e s))) of
               (c, s'', evs') \<Rightarrow> (c, s'', snd (snd (loop_iteration md5_hexdigest loads e s)) @ evs')))
   \<and> (try_block md5_hexdigest loads e s = (Returns u, s', evs) \<longrightarrow> loop_iteration md5_hexdigest loads e s = (Continue, s', evs))
   \<and> (try_block md5_hexdigest loads e s = (Raises x, s', evs) \<and> is_Exception x \<and> sleep_handler e = Returns () \<longrightarrow>
      loop_iteration md5_hexdigest loads e s = (Continue, s', evs @ [LoopError (exn_message x), Slept SCAN_INTERVAL]))
   \<and> (try_block md5_hexdigest loads e s = (Raises x, s', evs) \<and> is_Exception x \<and> sleep_handler e = Raises y \<longrightarrow>
      loop_iteration md5_hexdigest loads e s = (Propagate y, s', evs @ [LoopError (exn_message x)]))
   \<and> (try_block md5_hexdigest loads e s = (Raises KeyboardInterrupt, s', evs) \<longrightarrow>
      loop_iteration md5_hexdigest loads e s = (Break, s', evs @ [BotStopped]))
   \<and> (try_block md5_hexdigest loads e s = (Raises (BaseException m), s', evs) \<longrightarrow>
      loop_iteration md5_hexdigest loads e s = (Propagate (BaseException m), s', evs))
   \<and> ((fst (loop_iteration md5_hexdigest loads e s) = Break) = (fst (try_block md5_hexdigest loads e s) = Raises KeyboardInterrupt))
   \<and> (focus_windows e = Raises x \<or> (focus_windows e = Returns True \<and> focus_activate e = Raises x) \<longrightarrow>
      focus_whatsapp e
        = (if is_Exception x then (Returns False, [FocusError (exn_message x)])
           else (Raises x, [])))
   \<and> (capture_windows e = Raises x
       \<or> (capture_windows e = Returns True \<and> capture_shot e = Raises x) \<longrightarrow>
      get_chat_image e
        = (if is_Exception x then (Returns None, [ScreenshotError (exn_message x)])
           else (Raises x, [])))
   \<and> (click_windows e = Raises x \<or> (click_windows e = Returns True \<and> click_input e = Raises x) \<longrightarrow>
      click_on_chat_area_and_input e
        = (if is_Exception x then (Returns False, [ClickError (exn_message x)])
           else (Raises x, [])))
   \<and> (click_on_chat_area_and_input e = (Raises x, cevs) \<longrightarrow>
      send_reply e message
        = (if is_Exception x then (Returns False, cevs @ [ReplyFailed (exn_message x)])
           else (Raises x, cevs)))
   \<and> (click_on_chat_area_and_input e = (Returns False, cevs) \<longrightarrow>
      send_reply e message = (Returns False, cevs @ [FocusInputFailed]))
   \<and> (click_on_chat_area_and_input e = (Returns True, cevs) \<and> typing e = Raises x \<longrightarrow>
      send_reply e message
        = (if is_Exception x
           then (Returns False, cevs @ [TypingReply message, ReplyFailed (exn_message x)])
           else (Raises x, cevs @ [TypingReply message])))
   \<and> (generate_content e = Raises x \<longrightarrow>
      analyze_message_and_generate_reply loads e
        = (case x of
             KeyboardInterrupt \<Rightarrow> (Raises x, [OracleInvoked])
           | JSONDecodeError m \<Rightarrow>
               (Raises (Exception ''UnboundLocalError''), [OracleInvoked, JsonParsingError m])
           | Exception m \<Rightarrow> (Returns no_reply, [OracleInvoked, GeminiError m])
           | BaseException m \<Rightarrow> (Raises x, [OracleInvoked])))
   \<and> (generate_content e = Returns response \<and> extract_json (strip response) = Returns r
       \<and> loads r = Raises x \<longrightarrow>
      analyze_message_and_generate_reply loads e
        = (case x of
             KeyboardInterrupt \<Rightarrow> (Raises x, [OracleInvoked])
           | JSONDecodeError m \<Rightarrow>
               (Returns no_reply, [OracleInvoked, JsonParsingError m, RawResponse r])
           | Exception m \<Rightarrow> (Returns no_reply, [OracleInvoked, GeminiError m])
           | BaseException m \<Rightarrow> (Raises x, [OracleInvoked])))
   \<and> (generate_content e = Returns response \<and> extract_json (strip response) = Returns r
       \<and> loads r = Returns data \<and> (\<forall>kv. data \<noteq> JObj kv) \<longrightarrow>
      analyze_message_and_generate_reply loads e = (Returns no_reply, [OracleInvoked, GeminiError ''AttributeError'']))
   \<and> (fst (focus_whatsapp e) = Raises x \<longrightarrow>
      try_block md5_hexdigest loads e s = (Raises x, s, Checking # snd (focus_whatsapp e)))
   \<and> (focus_whatsapp e = (Returns False, ef) \<longrightarrow> try_block md5_hexdigest loads e s = sleep_scan e s (Checking # ef))
   \<and> (focus_whatsapp e = (Returns True, ef) \<and> get_chat_image e = (Raises x, ec) \<longrightarrow>
      try_block md5_hexdigest loads e s = (Raises x, s, Checking # ef @ ec))
   \<and> (focus_whatsapp e = (Returns True, ef) \<and> get_chat_image e = (Returns None, ec) \<longrightarrow>
      try_block md5_hexdigest loads e s = sleep_scan e s (Checking # ef @ ec))
   \<and> (focus_whatsapp e = (Returns True, ef) \<and> get_chat_image e = (Returns (Some img), ec) \<longrightarrow>
      try_block md5_hexdigest loads e s = gate_phase md5_hexdigest loads e img s (Checking # ef @ ec))
   \<and> (cooldown_active (t_gate e) (message_history s) (generate_image_hash md5_hexdigest img) \<longrightarrow>
      gate_phase md5_hexdigest loads e img s evs = sleep_scan e s (evs @ [CooldownActive]))
   \<and> (\<not> cooldown_active (t_gate e) (message_history s) (generate_image_hash md5_hexdigest img)
       \<and> check_rate_limit (t_rate e) s = (False, sr) \<longrightarrow>
      gate_phase md5_hexdigest loads e img s evs = sleep_scan e sr (evs @ [RateLimitReached]))
   \<and> (\<not> cooldown_active (t_gate e) (message_history s) (generate_image_hash md5_hexdigest img)
       \<and> check_rate_limit (t_rate e) s = (True, sr)
       \<and> analyze_message_and_generate_reply loads e = (Raises x, ea) \<longrightarrow>
      gate_phase md5_hexdigest loads e img s evs = (Raises x, sr, evs @ ea))
   \<and> (\<not> cooldown_active (t_gate e) (message_history s) (generate_image_hash md5_hexdigest img)
       \<and> check_rate_limit (t_rate e) s = (True, sr)
       \<and> analyze_message_and_generate_reply loads e = (Returns result, ea) \<longrightarrow>
      gate_phase md5_hexdigest loads e img s evs
        = reply_phase e (generate_image_hash md5_hexdigest img) result sr (evs @ ea))
   \<and> (\<not> (truthy_get result ''should_reply'' \<and> truthy_get result ''reply'') \<longrightarrow>
      reply_phase e h result s evs = sleep_scan e s (evs @ [NoReplyNeeded]))
   \<and> (truthy_get result ''should_reply'' \<and> truthy_get result ''reply''
       \<and> map_of result ''message_detected'' = None \<longrightarrow>
      reply_phase e h result s evs = (Raises (Exception ''KeyError''), s, evs))
   \<and> (truthy_get result ''should_reply'' \<and> truthy_get result ''reply''
       \<and> map_of result ''message_detected'' = Some d \<and> map_of result ''reply'' = Some message
       \<and> send_reply e message = (Raises x, sevs) \<longrightarrow>
      reply_phase e h result s evs = (Raises x, s, evs @ [PreparingReply d] @ sevs))
   \<and> (truthy_get result ''should_reply'' \<and> truthy_get result ''reply''
       \<and> map_of result ''message_detected'' = Some d \<and> map_of result ''reply'' = Some message
       \<and> send_reply e message = (Returns ok, sevs) \<longrightarrow>
      reply_phase e h result s evs
        = sleep_scan e (if ok then bookkeeping h (t_record e) (t_cleanup e) s else s)
            (evs @ [PreparingReply d] @ sevs))
   \<and> (sleep_body e = Raises x \<longrightarrow> sleep_scan e s evs = (Raises x, s, evs))
   \<and> (sleep_body e = Returns () \<longrightarrow>
      sleep_scan e s evs = (Returns (), s, evs @ [Slept SCAN_INTERVAL]))
   \<and> (focus_windows e = Raises KeyboardInterrupt \<longrightarrow>
      loop_iteration md5_hexdigest loads e s = (Break, s, [Checking, BotStopped]))
   \<and> (focus_whatsapp e = (Returns False, ef) \<and> sleep_body e = Raises KeyboardInterrupt \<longrightarrow>
      loop_iteration md5_hexdigest loads e s = (Break, s, Checking # ef @ [BotStopped]))
   \<and> (focus_whatsapp e = (Returns True, ef) \<and> get_chat_image e = (Returns (Some img), ec)
       \<and> \<not> cooldown_active (t_gate e) (message_history s) (generate_image_hash md5_hexdigest img)
       \<and> check_rate_limit (t_rate e) s = (True, sr)
       \<and> generate_content e = Raises KeyboardInterrupt \<longrightarrow>
      loop_iteration md5_hexdigest loads e s = (Break, sr, Checking # ef @ ec @ [OracleInvoked, BotStopped]))
   \<and> (focus_whatsapp e = (Returns True, ef) \<and> get_chat_image e = (Returns (Some img), ec)
       \<and> \<not> cooldown_active (t_gate e) (message_history s) (generate_image_hash md5_hexdigest img)
       \<and> check_rate_limit (t_rate e) s = (True, sr)
       \<and> analyze_message_and_generate_reply loads e = (Returns result, ea)
       \<and> truthy_get result ''should_reply'' \<and> truthy_get result ''reply''
       \<and> map_of result ''message_detected'' = Some d \<and> map_of result ''reply'' = Some message
       \<and> click_on_chat_area_and_input e = (Returns True, cevs)
       \<and> typing e = Raises KeyboardInterrupt \<longrightarrow>
      loop_iteration md5_hexdigest loads e s
        = (Break, sr,
           Checking # ef @ ec @ ea @ [PreparingReply d] @ cevs @ [TypingReply message, BotStopped]))"
proof -
  have benign_pass: "(env_benign e \<and> (\<forall>r. benign (loads r)) \<and> sleep_handler e = Returns () \<longrightarrow>
      fst (loop_iteration md5_hexdigest loads e s) = Continue
      \<and> snd (snd (loop_iteration md5_hexdigest loads e s)) \<noteq> []
      \<and> last (snd (snd (loop_iteration md5_hexdigest loads e s))) = Slept SCAN_INTERVAL
      \<and> run md5_hexdigest loads (e # es) s
          = (case run md5_hexdigest loads es (fst (snd (loop_iteration md5_hexdigest loads e s))) of
               (c, s'', evs') \<Rightarrow> (c, s'', snd (snd (loop_iteration md5_hexdigest loads e s)) @ evs')))"
  proof (intro impI, elim conjE)
    assume eb: "env_benign e" and lb: "\<forall>r. benign (loads r)"
      and sh: "sleep_handler e = Returns ()"
    obtain r0 s0 evs0 where tb: "try_block md5_hexdigest loads e s = (r0, s0, evs0)"
      by (cases "try_block md5_hexdigest loads e s")
    from eb lb have "benign (fst (try_block md5_hexdigest loads e s))"
      by (intro try_block_benign) simp_all
    with tb have bn: "benign r0" by simp
    have it: "fst (loop_iteration md5_hexdigest loads e s) = Continue
      \<and> snd (snd (loop_iteration md5_hexdigest loads e s)) \<noteq> []
      \<and> last (snd (snd (loop_iteration md5_hexdigest loads e s))) = Slept SCAN_INTERVAL"
    proof (cases r0)
      case (Returns u)
      with tb try_block_last [of md5_hexdigest loads e s u] show ?thesis
        by (simp add: loop_iteration_def)
    next
      case (Raises y)
      with bn have "is_Exception y" by (simp add: benign_def)
      with Raises tb sh show ?thesis
        by (cases y) (simp_all add: loop_iteration_def)
    qed
    then show "fst (loop_iteration md5_hexdigest loads e s) = Continue
      \<and> snd (snd (loop_iteration md5_hexdigest loads e s)) \<noteq> []
      \<and> last (snd (snd (loop_iteration md5_hexdigest loads e s))) = Slept SCAN_INTERVAL
      \<and> run md5_hexdigest loads (e # es) s
          = (case run md5_hexdigest loads es (fst (snd (loop_iteration md5_hexdigest loads e s))) of
               (c, s'', evs') \<Rightarrow> (c, s'', snd (snd (loop_iteration md5_hexdigest loads e s)) @ evs'))"
      by (cases "loop_iteration md5_hexdigest loads e s") (auto split: prod.splits)
  qed
  have loop_returns: "(try_block md5_hexdigest loads e s = (Returns u, s', evs) \<longrightarrow> loop_iteration md5_hexdigest loads e s = (Continue, s', evs))"
    by (simp add: loop_iteration_def)
  have loop_catches: "(try_block md5_hexdigest loads e s = (Raises x, s', evs) \<and> is_Exception x \<and> sleep_handler e = Returns () \<longrightarrow>
      loop_iteration md5_hexdigest loads e s = (Continue, s', evs @ [LoopError (exn_message x), Slept SCAN_INTERVAL]))"
    by (cases x) (simp_all add: loop_iteration_def)
  have loop_handler_sleep_raises: "(try_block md5_hexdigest loads e s = (Raises x, s', evs) \<and> is_Exception x \<and> sleep_handler e = Raises y \<longrightarrow>
      loop_iteration md5_hexdigest loads e s = (Propagate y, s', evs @ [LoopError (exn_message x)]))"
    by (cases x) (simp_all add: loop_iteration_def)
  have loop_interrupt: "(try_block md5_hexdigest loads e s = (Raises KeyboardInterrupt, s', evs) \<longrightarrow>
      loop_iteration md5_hexdigest loads e s = (Break, s', evs @ [BotStopped]))"
    by (simp add: loop_iteration_def)
  have loop_other: "(try_block md5_hexdigest loads e s = (Raises (BaseException m), s', evs) \<longrightarrow>
      loop_iteration md5_hexdigest loads e s = (Propagate (BaseException m), s', evs))"
    by (simp add: loop_iteration_def)
  have loop_break_iff: "((fst (loop_iteration md5_hexdigest loads e s) = Break) = (fst (try_block md5_hexdigest loads e s) = Raises KeyboardInterrupt))"
    by (cases "try_block md5_hexdigest loads e s") (auto simp: loop_iteration_def split: outcome.splits)
  have focus_site: "(focus_windows e = Raises x \<or> (focus_windows e = Returns True \<and> focus_activate e = Raises x) \<longrightarrow>
      focus_whatsapp e
        = (if is_Exception x then (Returns False, [FocusError (exn_message x)])
           else (Raises x, [])))"
    by (auto simp: focus_whatsapp_def except_Exception_def)
  have capture_site: "(capture_windows e = Raises x
       \<or> (capture_windows e = Returns True \<and> capture_shot e = Raises x) \<longrightarrow>
      get_chat_image e
        = (if is_Exception x then (Returns None, [ScreenshotError (exn_message x)])
           else (Raises x, [])))"
    by (auto simp: get_chat_image_def except_Exception_def)
  have click_site: "(click_windows e = Raises x \<or> (click_windows e = Returns True \<and> click_input e = Raises x) \<longrightarrow>
      click_on_chat_area_and_input e
        = (if is_Exception x then (Returns False, [ClickError (exn_message x)])
           else (Raises x, [])))"
    by (auto simp: click_on_chat_area_and_input_def except_Exception_def)
  have send_click_raises: "(click_on_chat_area_and_input e = (Raises x, cevs) \<longrightarrow>
      send_reply e message
        = (if is_Exception x then (Returns False, cevs @ [ReplyFailed (exn_message x)])
           else (Raises x, cevs)))"
    by (simp add: send_reply_def except_Exception_def)
  have send_click_fails: "(click_on_chat_area_and_input e = (Returns False, cevs) \<longrightarrow>
      send_reply e message = (Returns False, cevs @ [FocusInputFailed]))"
    by (simp add: send_reply_def except_Exception_def)
  have send_typing_site: "(click_on_chat_area_and_input e = (Returns True, cevs) \<and> typing e = Raises x \<longrightarrow>
      send_reply e message
        = (if is_Exception x
           then (Returns False, cevs @ [TypingReply message, ReplyFailed (exn_message x)])
           else (Raises x, cevs @ [TypingReply message])))"
    by (simp add: send_reply_def except_Exception_def)
  have oracle_site: "(generate_content e = Raises x \<longrightarrow>
      analyze_message_and_generate_reply loads e
        = (case x of
             KeyboardInterrupt \<Rightarrow> (Raises x, [OracleInvoked])
           | JSONDecodeError m \<Rightarrow>
               (Raises (Exception ''UnboundLocalError''), [OracleInvoked, JsonParsingError m])
           | Exception m \<Rightarrow> (Returns no_reply, [OracleInvoked, GeminiError m])
           | BaseException m \<Rightarrow> (Raises x, [OracleInvoked])))"
    by (cases x) (simp_all add: analyze_message_and_generate_reply_def analyze_handlers_def)
  have loads_site: "(generate_content e = Returns response \<and> extract_json (strip response) = Returns r
       \<and> loads r = Raises x \<longrightarrow>
      analyze_message_and_generate_reply loads e
        = (case x of
             KeyboardInterrupt \<Rightarrow> (Raises x, [OracleInvoked])
           | JSONDecodeError m \<Rightarrow>
               (Returns no_reply, [OracleInvoked, JsonParsingError m, RawResponse r])
           | Exception m \<Rightarrow> (Returns no_reply, [OracleInvoked, GeminiError m])
           | BaseException m \<Rightarrow> (Raises x, [OracleInvoked])))"
    by (cases x) (simp_all add: analyze_message_and_generate_reply_def analyze_handlers_def)
  have not_an_object: "(generate_content e = Returns response \<and> extract_json (strip response) = Returns r
       \<and> loads r = Returns data \<and> (\<forall>kv. data \<noteq> JObj kv) \<longrightarrow>
      analyze_message_and_generate_reply loads e = (Returns no_reply, [OracleInvoked, GeminiError ''AttributeError'']))"
    by (cases data) (simp_all add: analyze_message_and_generate_reply_def analyze_handlers_def)
  have pass_focus_raises: "(fst (focus_whatsapp e) = Raises x \<longrightarrow>
      try_block md5_hexdigest loads e s = (Raises x, s, Checking # snd (focus_whatsapp e)))"
    by (cases "focus_whatsapp e") (simp add: try_block_def)
  have pass_focus_fails: "(focus_whatsapp e = (Returns False, ef) \<longrightarrow> try_block md5_hexdigest loads e s = sleep_scan e s (Checking # ef))"
    by (simp add: try_block_def)
  have pass_capture_raises: "(focus_whatsapp e = (Returns True, ef) \<and> get_chat_image e = (Raises x, ec) \<longrightarrow>
      try_block md5_hexdigest loads e s = (Raises x, s, Checking # ef @ ec))"
    by (simp add: try_block_def)
  have pass_capture_fails: "(focus_whatsapp e = (Returns True, ef) \<and> get_chat_image e = (Returns None, ec) \<longrightarrow>
      try_block md5_hexdigest loads e s = sleep_scan e s (Checking # ef @ ec))"
    by (simp add: try_block_def)
  have pass_reaches_gate: "(focus_whatsapp e = (Returns True, ef) \<and> get_chat_image e = (Returns (Some img), ec) \<longrightarrow>
      try_block md5_hexdigest loads e s = gate_phase md5_hexdigest loads e img s (Checking # ef @ ec))"
    by (simp add: try_block_def)
  have gate_cooldown: "(cooldown_active (t_gate e) (message_history s) (generate_image_hash md5_hexdigest img) \<longrightarrow>
      gate_phase md5_hexdigest loads e img s evs = sleep_scan e s (evs @ [CooldownActive]))"
    by (simp add: gate_phase_def Let_def)
  have gate_rate_limited: "(\<not> cooldown_active (t_gate e) (message_history s) (generate_image_hash md5_hexdigest img)
       \<and> check_rate_limit (t_rate e) s = (False, sr) \<longrightarrow>
      gate_phase md5_hexdigest loads e img s evs = sleep_scan e sr (evs @ [RateLimitReached]))"
    by (simp add: gate_phase_def Let_def)
  have gate_oracle_raises: "(\<not> cooldown_active (t_gate e) (message_history s) (generate_image_hash md5_hexdigest img)
       \<and> check_rate_limit (t_rate e) s = (True, sr)
       \<and> analyze_message_and_generate_reply loads e = (Raises x, ea) \<longrightarrow>
      gate_phase md5_hexdigest loads e img s evs = (Raises x, sr, evs @ ea))"
    by (simp add: gate_phase_def Let_def)
  have gate_reaches_reply: "(\<not> cooldown_active (t_gate e) (message_history s) (generate_image_hash md5_hexdigest img)
       \<and> check_rate_limit (t_rate e) s = (True, sr)
       \<and> analyze_message_and_generate_reply loads e = (Returns result, ea) \<longrightarrow>
      gate_phase md5_hexdigest loads e img s evs
        = reply_phase e (generate_image_hash md5_hexdigest img) result sr (evs @ ea))"
    by (simp add: gate_phase_def Let_def)
  have reply_not_wanted: "(\<not> (truthy_get result ''should_reply'' \<and> truthy_get result ''reply'') \<longrightarrow>
      reply_phase e h result s evs = sleep_scan e s (evs @ [NoReplyNeeded]))"
    by (auto simp: reply_phase_def)
  have reply_key_missing: "(truthy_get result ''should_reply'' \<and> truthy_get result ''reply''
       \<and> map_of result ''message_detected'' = None \<longrightarrow>
      reply_phase e h result s evs = (Raises (Exception ''KeyError''), s, evs))"
    by (simp add: reply_phase_def)
  have reply_send_raises: "(truthy_get result ''should_reply'' \<and> truthy_get result ''reply''
       \<and> map_of result ''message_detected'' = Some d \<and> map_of result ''reply'' = Some message
       \<and> send_reply e message = (Raises x, sevs) \<longrightarrow>
      reply_phase e h result s evs = (Raises x, s, evs @ [PreparingReply d] @ sevs))"
    by (simp add: reply_phase_def)
  have reply_send_returns: "(truthy_get result ''should_reply'' \<and> truthy_get result ''reply''
       \<and> map_of result ''message_detected'' = Some d \<and> map_of result ''reply'' = Some message
       \<and> send_reply e message = (Returns ok, sevs) \<longrightarrow>
      reply_phase e h result s evs
        = sleep_scan e (if ok then bookkeeping h (t_record e) (t_cleanup e) s else s)
            (evs @ [PreparingReply d] @ sevs))"
    by (simp add: reply_phase_def)
  have sleep_raises: "(sleep_body e = Raises x \<longrightarrow> sleep_scan e s evs = (Raises x, s, evs))"
    by (simp add: sleep_scan_def)
  have sleep_returns: "(sleep_body e = Returns () \<longrightarrow>
      sleep_scan e s evs = (Returns (), s, evs @ [Slept SCAN_INTERVAL]))"
    by (simp add: sleep_scan_def)
  have interrupt_in_focus: "(focus_windows e = Raises KeyboardInterrupt \<longrightarrow>
      loop_iteration md5_hexdigest loads e s = (Break, s, [Checking, BotStopped]))"
    by (simp add: loop_iteration_def try_block_def focus_whatsapp_def except_Exception_def)
  have interrupt_in_sleep: "(focus_whatsapp e = (Returns False, ef) \<and> sleep_body e = Raises KeyboardInterrupt \<longrightarrow>
      loop_iteration md5_hexdigest loads e s = (Break, s, Checking # ef @ [BotStopped]))"
    by (simp add: loop_iteration_def try_block_def sleep_scan_def)
  have interrupt_in_oracle: "(focus_whatsapp e = (Returns True, ef) \<and> get_chat_image e = (Returns (Some img), ec)
       \<and> \<not> cooldown_active (t_gate e) (message_history s) (generate_image_hash md5_hexdigest img)
       \<and> check_rate_limit (t_rate e) s = (True, sr)
       \<and> generate_content e = Raises KeyboardInterrupt \<longrightarrow>
      loop_iteration md5_hexdigest loads e s = (Break, sr, Checking # ef @ ec @ [OracleInvoked, BotStopped]))"
    by (simp add: loop_iteration_def try_block_def gate_phase_def Let_def
        analyze_message_and_generate_reply_def analyze_handlers_def)
  have interrupt_in_injection: "(focus_whatsapp e = (Returns True, ef) \<and> get_chat_image e = (Returns (Some img), ec)
       \<and> \<not> cooldown_active (t_gate e) (message_history s) (generate_image_hash md5_hexdigest img)
       \<and> check_rate_limit (t_rate e) s = (True, sr)
       \<and> analyze_message_and_generate_reply loads e = (Returns result, ea)
       \<and> truthy_get result ''should_reply'' \<and> truthy_get result ''reply''
       \<and> map_of result ''message_detected'' = Some d \<and> map_of result ''reply'' = Some message
       \<and> click_on_chat_area_and_input e = (Returns True, cevs)
       \<and> typing e = Raises KeyboardInterrupt \<longrightarrow>
      loop_iteration md5_hexdigest loads e s
        = (Break, sr,
           Checking # ef @ ec @ ea @ [PreparingReply d] @ cevs @ [TypingReply message, BotStopped]))"
    by (simp add: loop_iteration_def try_block_def gate_phase_def Let_def reply_phase_def
        send_reply_def except_Exception_def)
  show ?thesis
    by (intro conjI benign_pass loop_returns loop_catches loop_handler_sleep_raises loop_interrupt loop_other loop_break_iff focus_site capture_site click_site send_click_raises send_click_fails send_typing_site oracle_site loads_site not_an_object pass_focus_raises pass_focus_fails pass_capture_raises pass_capture_fails pass_reaches_gate gate_cooldown gate_rate_limited gate_oracle_raises gate_reaches_reply reply_not_wanted reply_key_missing reply_send_raises reply_send_returns sleep_raises sleep_returns interrupt_in_focus interrupt_in_sleep interrupt_in_oracle interrupt_in_injection)
qed

theorem loop_survives_exceptions_witness:
  "loop_iteration scenario_md5 scenario_loads
      ((scenario_env 2000)\<lparr>focus_windows := Raises (Exception ''no display'')\<rparr>)
      (initial_state 0)
     = (Continue, initial_state 0, [Checking, FocusError ''no display'', Slept 20])
   \<and> loop_iteration scenario_md5 (\<lambda>r. Returns (JObj [(''should_reply'', JBool True),
          (''reply'', JStr ''morning!'')]))
      (scenario_env 2000) (initial_state 0)
     = (Continue, initial_state 0,
        [Checking, OracleInvoked, AIDetected (JStr ''N/A''), AIShouldReply (JBool True),
         LoopError ''KeyError'', Slept 20])
   \<and> loop_iteration scenario_md5 scenario_loads
      ((scenario_env 2000)\<lparr>typing := Raises KeyboardInterrupt\<rparr>) (initial_state 0)
     = (Break, initial_state 0,
        [Checking, OracleInvoked, AIDetected (JStr ''good morning''), AIShouldReply (JBool True),
         PreparingReply (JStr ''good morning''), TypingReply (JStr ''morning!''), BotStopped])
   \<and> loop_iteration scenario_md5 scenario_loads
      ((scenario_env 2000)\<lparr>generate_content := Raises KeyboardInterrupt\<rparr>) (initial_state 0)
     = (Break, initial_state 0, [Checking, OracleInvoked, BotStopped])
   \<and> loop_iteration scenario_md5 scenario_loads
      ((scenario_env 2000)\<lparr>typing := Raises (BaseException ''SystemExit'')\<rparr>)
      (initial_state 0)
     = (Propagate (BaseException ''SystemExit''), initial_state 0,
        [Checking, OracleInvoked, AIDetected (JStr ''good morning''), AIShouldReply (JBool True),
         PreparingReply (JStr ''good morning''), TypingReply (JStr ''morning!'')])
   \<and> loop_iteration scenario_md5 scenario_loads
      ((scenario_env 2000)\<lparr>typing := Raises (Exception ''fail-safe'')\<rparr>) (initial_state 0)
     = (Continue, initial_state 0,
        [Checking, OracleInvoked, AIDetected (JStr ''good morning''), AIShouldReply (JBool True),
         PreparingReply (JStr ''good morning''), TypingReply (JStr ''morning!''),
         ReplyFailed ''fail-safe'', Slept 20])
   \<and> loop_iteration scenario_md5 scenario_loads
      ((scenario_env 2000)\<lparr>focus_windows := Returns False,
         sleep_body := Raises KeyboardInterrupt\<rparr>) (initial_state 0)
     = (Break, initial_state 0, [Checking, WindowNotFound, BotStopped])"
  using loop_survives_exceptions [where e = "(scenario_env 2000)\<lparr>focus_windows := Raises (Exception ''no display'')\<rparr>" and loads = scenario_loads and md5_hexdigest = scenario_md5 and s = "initial_state 0" and es = "[]" and u = "()" and s' = "initial_state 0" and evs = "[Checking]" and x = "Exception ''no display''" and y = KeyboardInterrupt and m = "''SystemExit''" and cevs = "[]" and message = "JStr ''morning!''" and response = "''{...}''" and r = "''{...}''" and data = JNull and ef = "[]" and ec = "[]" and img = "''pixels''" and sr = "initial_state 0" and ea = "[OracleInvoked, AIDetected (JStr ''good morning''), AIShouldReply (JBool True)]" and result = "[(''should_reply'', JBool True), (''message_detected'', JStr ''good morning''), (''reply'', JStr ''morning!'')]" and h = "''abc123''" and d = "JStr ''good morning''" and ok = True and sevs = "[]"]
    loop_survives_exceptions [where e = "scenario_env 2000" and loads = "\<lambda>r. Returns (JObj [(''should_reply'', JBool True), (''reply'', JStr ''morning!'')])" and md5_hexdigest = scenario_md5 and s = "initial_state 0" and es = "[]" and u = "()" and s' = "initial_state 0" and evs = "[Checking, OracleInvoked, AIDetected (JStr ''N/A''), AIShouldReply (JBool True)]" and x = "Exception ''KeyError''" and y = KeyboardInterrupt and m = "''SystemExit''" and cevs = "[]" and message = "JStr ''morning!''" and response = "''{...}''" and r = "''{...}''" and data = JNull and ef = "[]" and ec = "[]" and img = "''pixels''" and sr = "initial_state 0" and ea = "[OracleInvoked, AIDetected (JStr ''good morning''), AIShouldReply (JBool True)]" and result = "[(''should_reply'', JBool True), (''reply'', JStr ''morning!'')]" and h = "''abc123''" and d = "JStr ''good morning''" and ok = True and sevs = "[]"]
    loop_survives_exceptions [where e = "(scenario_env 2000)\<lparr>typing := Raises KeyboardInterrupt\<rparr>" and loads = scenario_loads and md5_hexdigest = scenario_md5 and s = "initial_state 0" and es = "[]" and u = "()" and s' = "initial_state 0" and evs = "[Checking]" and x = KeyboardInterrupt and y = KeyboardInterrupt and m = "''SystemExit''" and cevs = "[]" and message = "JStr ''morning!''" and response = "''{...}''" and r = "''{...}''" and data = JNull and ef = "[]" and ec = "[]" and img = "''pixels''" and sr = "initial_state 0" and ea = "[OracleInvoked, AIDetected (JStr ''good morning''), AIShouldReply (JBool True)]" and result = "[(''should_reply'', JBool True), (''message_detected'', JStr ''good morning''), (''reply'', JStr ''morning!'')]" and h = "''abc123''" and d = "JStr ''good morning''" and ok = True and sevs = "[]"]
    loop_survives_exceptions [where e = "(scenario_env 2000)\<lparr>generate_content := Raises KeyboardInterrupt\<rparr>" and loads = scenario_loads and md5_hexdigest = scenario_md5 and s = "initial_state 0" and es = "[]" and u = "()" and s' = "initial_state 0" and evs = "[Checking]" and x = KeyboardInterrupt and y = KeyboardInterrupt and m = "''SystemExit''" and cevs = "[]" and message = "JStr ''morning!''" and response = "''{...}''" and r = "''{...}''" and data = JNull and ef = "[]" and ec = "[]" and img = "''pixels''" and sr = "initial_state 0" and ea = "[OracleInvoked, AIDetected (JStr ''good morning''), AIShouldReply (JBool True)]" and result = "[(''should_reply'', JBool True), (''message_detected'', JStr ''good morning''), (''reply'', JStr ''morning!'')]" and h = "''abc123''" and d = "JStr ''good morning''" and ok = True and sevs = "[]"]
    loop_survives_exceptions [where e = "(scenario_env 2000)\<lparr>typing := Raises (BaseException ''SystemExit'')\<rparr>" and loads = scenario_loads and md5_hexdigest = scenario_md5 and s = "initial_state 0" and es = "[]" and u = "()" and s' = "initial_state 0" and evs = "[Checking, OracleInvoked, AIDetected (JStr ''good morning''), AIShouldReply (JBool True), PreparingReply (JStr ''good morning''), TypingReply (JStr ''morning!'')]" and x = "BaseException ''SystemExit''" and y = KeyboardInterrupt and m = "''SystemExit''" and cevs = "[]" and message = "JStr ''morning!''" and response = "''{...}''" and r = "''{...}''" and data = JNull and ef = "[]" and ec = "[]" and img = "''pixels''" and sr = "initial_state 0" and ea = "[OracleInvoked, AIDetected (JStr ''good morning''), AIShouldReply (JBool True)]" and result = "[(''should_reply'', JBool True), (''message_detected'', JStr ''good morning''), (''reply'', JStr ''morning!'')]" and h = "''abc123''" and d = "JStr ''good morning''" and ok = True and sevs = "[]"]
    loop_survives_exceptions [where e = "(scenario_env 2000)\<lparr>typing := Raises (Exception ''fail-safe'')\<rparr>" and loads = scenario_loads and md5_hexdigest = scenario_md5 and s = "initial_state 0" and es = "[]" and u = "()" and s' = "initial_state 0" and evs = "[Checking]" and x = "Exception ''fail-safe''" and y = KeyboardInterrupt and m = "''SystemExit''" and cevs = "[]" and message = "JStr ''morning!''" and response = "''{...}''" and r = "''{...}''" and data = JNull and ef = "[]" and ec = "[]" and img = "''pixels''" and sr = "initial_state 0" and ea = "[OracleInvoked, AIDetected (JStr ''good morning''), AIShouldReply (JBool True)]" and result = "[(''should_reply'', JBool True), (''message_detected'', JStr ''good morning''), (''reply'', JStr ''morning!'')]" and h = "''abc123''" and d = "JStr ''good morning''" and ok = True and sevs = "[]"]
    loop_survives_exceptions [where e = "(scenario_env 2000)\<lparr>focus_windows := Returns False, sleep_body := Raises KeyboardInterrupt\<rparr>" and loads = scenario_loads and md5_hexdigest = scenario_md5 and s = "initial_state 0" and es = "[]" and u = "()" and s' = "initial_state 0" and evs = "[Checking]" and x = KeyboardInterrupt and y = KeyboardInterrupt and m = "''SystemExit''" and cevs = "[]" and message = "JStr ''morning!''" and response = "''{...}''" and r = "''{...}''" and data = JNull and ef = "[WindowNotFound]" and ec = "[]" and img = "''pixels''" and sr = "initial_state 0" and ea = "[OracleInvoked, AIDetected (JStr ''good morning''), AIShouldReply (JBool True)]" and result = "[(''should_reply'', JBool True), (''message_detected'', JStr ''good morning''), (''reply'', JStr ''morning!'')]" and h = "''abc123''" and d = "JStr ''good morning''" and ok = True and sevs = "[]"]
  by (simp add: pass_defs scenario_defs benign_def env_benign_def)

end
